theory Spec2Isabelle
  imports Main "HOL-Library.Word"
begin

unbundle bit_operations_syntax

section \<open>The embedded asset file system (generated static file server code)\<close>

text \<open>
  The Go file under study is the output of an asset embedder: a registry of file descriptors
  (\<^verbatim>\<open>_escData\<close>), a table of directory listings (\<^verbatim>\<open>_escDirs\<close>), two back ends
  (\<^verbatim>\<open>_escLocalFS\<close>, \<^verbatim>\<open>_escStaticFS\<close>), a prefix decorator (\<^verbatim>\<open>_escDirectory\<close>) and the
  facade functions \<^verbatim>\<open>FS\<close>, \<^verbatim>\<open>Dir\<close>, \<^verbatim>\<open>FSByte\<close>, \<^verbatim>\<open>FSMustByte\<close>, \<^verbatim>\<open>FSString\<close>,
  \<^verbatim>\<open>FSMustString\<close>.  Go identifiers that start with an underscore lose it here.
\<close>

subsection \<open>Values\<close>

text \<open>A Go \<^verbatim>\<open>[]byte\<close> and a Go \<^verbatim>\<open>string\<close> are both byte sequences; the nil slice is the
  empty list.\<close>

type_synonym bytes = "char list"

text \<open>The Go error values that can leave this file.  \<^verbatim>\<open>Errorf\<close> carries the formatted message
  of \<^verbatim>\<open>fmt.Errorf\<close>; \<^verbatim>\<open>NilDereference\<close> is the run-time panic of reading a field through a
  pointer that is not in the registry.\<close>

datatype error =
    ErrNotExist
  | EOF
  | ErrUnexpectedEOF
  | Base64CorruptInput
  | GzipErrHeader
  | GzipErrChecksum
  | FlateCorruptInput
  | FlateInternalError
  | Errorf string
  | PathError string
  | NilDereference

text \<open>An \<^verbatim>\<open>io.Reader\<close> over in-memory data is determined by what reading it to the end
  delivers: the bytes it hands out, and the error that ends it, which is \<^verbatim>\<open>io.EOF\<close> at a clean
  end.\<close>

type_synonym reader = "bytes \<times> error"

text \<open>\<^verbatim>\<open>ioutil.ReadAll\<close> reads until an error or EOF and returns the data it read; EOF is
  reported as a nil error, any other error together with the data read before it.\<close>

definition ioutil_ReadAll :: "reader \<Rightarrow> bytes \<times> error option" where
  "ioutil_ReadAll r = (case r of (d, e) \<Rightarrow> (d, if e = EOF then None else Some e))"

text \<open>The library calls whose code is not part of the repository are parameters of the model:
  the base64 stream decoder, the gzip reader (whose constructor parses the member header and can
  fail), and the operating system's \<^verbatim>\<open>os.Open\<close> with the subsequent read of the opened file.\<close>

record 'h stdlib =
  base64_NewDecoder :: "string \<Rightarrow> reader"
  gzip_NewReader :: "reader \<Rightarrow> error + reader"
  os_Open :: "string \<Rightarrow> error + 'h"
  os_ReadAll :: "'h \<Rightarrow> bytes \<times> error option"

subsection \<open>\<^verbatim>\<open>path.Clean\<close> and \<^verbatim>\<open>path.Base\<close>\<close>

text \<open>The inner loop of \<^verbatim>\<open>Clean\<close> that backs up over the last path element:
  while \<open>out.w\<close> exceeds \<open>dotdot\<close> and the byte at \<open>out.w\<close> is not a slash, \<open>out.w\<close> is
  decremented.\<close>

fun backtrack :: "string \<Rightarrow> nat \<Rightarrow> nat \<Rightarrow> nat" where
  "backtrack buf dotdot w =
     (if w > dotdot \<and> buf ! w \<noteq> CHR ''/'' then backtrack buf dotdot (w - 1) else w)"

declare backtrack.simps [simp del]

text \<open>The main loop of \<^verbatim>\<open>Clean\<close>; \<open>out\<close> is the written part of the output buffer (its
  length is \<^verbatim>\<open>out.w\<close>) and the last argument is the unread rest \<^verbatim>\<open>path[r:]\<close>.\<close>

function clean_loop :: "bool \<Rightarrow> string \<Rightarrow> nat \<Rightarrow> string \<Rightarrow> string" where
  "clean_loop rooted out dotdot [] = out"
| "clean_loop rooted out dotdot (c # cs) =
     (if c = CHR ''/'' then clean_loop rooted out dotdot cs
      else if c = CHR ''.'' \<and> (cs = [] \<or> hd cs = CHR ''/'') then clean_loop rooted out dotdot cs
      else if c = CHR ''.'' \<and> hd cs = CHR ''.'' \<and> (tl cs = [] \<or> hd (tl cs) = CHR ''/'') then
        (if length out > dotdot then
           clean_loop rooted (take (backtrack out dotdot (length out - 1)) out) dotdot (tl cs)
         else if \<not> rooted then
           (let out' = (if length out > 0 then out @ ''/'' else out) @ ''..''
            in clean_loop rooted out' (length out') (tl cs))
         else clean_loop rooted out dotdot (tl cs))
      else
        (let out' = (if rooted \<and> length out \<noteq> 1 \<or> \<not> rooted \<and> length out \<noteq> 0
                     then out @ ''/'' else out)
         in clean_loop rooted (out' @ takeWhile (\<lambda>x. x \<noteq> CHR ''/'') (c # cs)) dotdot
              (dropWhile (\<lambda>x. x \<noteq> CHR ''/'') (c # cs))))"
  by pat_completeness auto
termination
proof (relation "measure (\<lambda>(rooted, out, dotdot, rest). length rest)")
  fix c :: char and cs :: string
  assume "c \<noteq> CHR ''/''"
  then have "dropWhile (\<lambda>x. x \<noteq> CHR ''/'') (c # cs) = dropWhile (\<lambda>x. x \<noteq> CHR ''/'') cs"
    by simp
  then show "((rooted, out' @ takeWhile (\<lambda>x. x \<noteq> CHR ''/'') (c # cs), dotdot,
               dropWhile (\<lambda>x. x \<noteq> CHR ''/'') (c # cs)), rooted, out, dotdot, c # cs)
             \<in> measure (\<lambda>(rooted, out, dotdot, rest). length rest)"
    for rooted out out' dotdot
    by (simp only: in_measure prod.case length_Cons le_imp_less_Suc length_dropWhile_le)
qed (simp only: in_measure prod.case length_Cons length_tl wf_measure, linarith?)+

definition path_Clean :: "string \<Rightarrow> string" where
  "path_Clean path =
     (if path = [] then ''.''
      else
        (let rooted = (hd path = CHR ''/'');
             out = clean_loop rooted (if rooted then ''/'' else []) (if rooted then 1 else 0)
                     (if rooted then tl path else path)
         in if out = [] then ''.'' else out))"

definition path_Base :: "string \<Rightarrow> string" where
  "path_Base path =
     (if path = [] then ''.''
      else
        (let stripped = rev (dropWhile (\<lambda>c. c = CHR ''/'') (rev path));
             last_elem = rev (takeWhile (\<lambda>c. c \<noteq> CHR ''/'') (rev stripped))
         in if last_elem = [] then ''/'' else last_elem))"

subsection \<open>Descriptors, registry and program state\<close>

text \<open>\<^verbatim>\<open>type _escFile struct\<close>.  The field \<^verbatim>\<open>size\<close> is called \<open>fsize\<close>; \<open>once\<close> is the
  \<^verbatim>\<open>done\<close> flag of the \<^verbatim>\<open>sync.Once\<close>.\<close>

record escFile =
  compressed :: string
  fsize :: int
  modtime :: int
  local :: string
  isDir :: bool
  once :: bool
  data :: bytes
  name :: string

text \<open>The registry holds pointers; a pointer to a descriptor is identified with the key under
  which \<^verbatim>\<open>_escData\<close> holds it, and the objects live in the store \<open>escData\<close>.  The listing
  table \<open>escDirs\<close> holds such pointers too, so a listing entry and a registry entry alias the
  same object.  \<open>decodes\<close> is a probe, not program data: it records, in order, the key of every
  descriptor for which the reader chain of lines 61--67 was built and run.\<close>

type_synonym ptr = string

record state =
  escData :: "string \<rightharpoonup> escFile"
  escDirs :: "string \<rightharpoonup> ptr list"
  decodes :: "ptr list"

subsection \<open>The embedded back end: \<^verbatim>\<open>_escStaticFS.prepare\<close>\<close>

text \<open>The closure handed to \<^verbatim>\<open>f.once.Do\<close> (lines 56--68).  It returns the descriptor as the
  closure leaves it and the value the closure leaves in the captured variable \<^verbatim>\<open>err\<close>.  The
  name is set from the requested path, not from the registry key.  A descriptor of size 0
  returns before any reader is built.  Otherwise the base64 decoder is wrapped around the stored
  text and handed to the gzip reader; when the gzip constructor fails the closure returns with
  that error, and otherwise \<^verbatim>\<open>ReadAll\<close> assigns both \<^verbatim>\<open>f.data\<close> and \<^verbatim>\<open>err\<close>.\<close>

definition once_body :: "'h stdlib \<Rightarrow> string \<Rightarrow> escFile \<Rightarrow> escFile \<times> error option" where
  "once_body L nm f =
     (let f1 = f\<lparr>name := path_Base nm\<rparr> in
      if fsize f1 = 0 then (f1, None)
      else
        (let b64 = base64_NewDecoder L (compressed f1) in
         case gzip_NewReader L b64 of
           Inl e \<Rightarrow> (f1, Some e)
         | Inr gr \<Rightarrow> (case ioutil_ReadAll gr of (d, err) \<Rightarrow> (f1\<lparr>data := d\<rparr>, err))))"

text \<open>\<^verbatim>\<open>prepare\<close> (lines 50--73).  A fired \<^verbatim>\<open>sync.Once\<close> skips the closure, so \<^verbatim>\<open>err\<close> keeps
  its initial nil.  The probe \<open>decodes\<close> grows exactly when the closure gets past the size test.\<close>

definition prepare :: "'h stdlib \<Rightarrow> string \<Rightarrow> state \<Rightarrow> (error + ptr) \<times> state" where
  "prepare L nm st =
     (let key = path_Clean nm in
      case escData st key of
        None \<Rightarrow> (Inl ErrNotExist, st)
      | Some f \<Rightarrow>
          if once f then (Inr key, st)
          else
            (case once_body L nm f of
               (f', err) \<Rightarrow>
                 (let st' = st\<lparr>escData := (escData st)(key \<mapsto> f'\<lparr>once := True\<rparr>),
                                decodes := (if fsize f = 0 then decodes st else decodes st @ [key])\<rparr>
                  in case err of
                       Some e \<Rightarrow> (Inl e, st')
                     | None \<Rightarrow> (Inr key, st'))))"

subsection \<open>File handles\<close>

text \<open>\<^verbatim>\<open>bytes.Reader\<close>: the slice being read (\<^verbatim>\<open>s\<close>) and the read position (\<^verbatim>\<open>i\<close>).\<close>

record bytes_Reader =
  rd_s :: bytes
  rd_i :: int

definition bytes_NewReader :: "bytes \<Rightarrow> bytes_Reader" where
  "bytes_NewReader b = \<lparr>rd_s = b, rd_i = 0\<rparr>"

text \<open>The local struct \<^verbatim>\<open>httpFile\<close> of \<^verbatim>\<open>File\<close>: a reader over the descriptor's data at the
  time of the call, and the pointer to the descriptor.\<close>

record httpFile =
  Reader :: bytes_Reader
  escFile_ptr :: ptr

text \<open>An \<^verbatim>\<open>http.File\<close> returned by one of the back ends is either such a handle or whatever
  \<^verbatim>\<open>os.Open\<close> returned.\<close>

datatype 'h http_File = StaticFile httpFile | OsFile 'h

text \<open>\<^verbatim>\<open>(*_escFile).File\<close> (lines 87--96).\<close>

definition File :: "state \<Rightarrow> ptr \<Rightarrow> error + 'h http_File" where
  "File st p =
     (case escData st p of
        None \<Rightarrow> Inl NilDereference
      | Some f \<Rightarrow> Inr (StaticFile \<lparr>Reader = bytes_NewReader (data f), escFile_ptr = p\<rparr>))"

text \<open>The methods of \<^verbatim>\<open>*_escFile\<close> (lines 98--149).  Those that only read fields take the
  descriptor; \<^verbatim>\<open>Stat\<close> and \<^verbatim>\<open>Sys\<close> return the receiver, so they take and return the pointer.
  \<^verbatim>\<open>os.FileMode\<close> is a 32-bit unsigned integer whose top bit is \<^verbatim>\<open>os.ModeDir\<close>.\<close>

definition Close :: "ptr \<Rightarrow> error option" where
  "Close p = None"

definition Stat :: "ptr \<Rightarrow> error + ptr" where
  "Stat p = Inr p"



definition Mode :: "escFile \<Rightarrow> 32 word" where
  "Mode f = 0"

definition ModeDir :: "32 word" where
  "ModeDir = push_bit 31 1"

definition ModTime :: "escFile \<Rightarrow> int \<times> int" where
  "ModTime f = (modtime f, 0)"

definition IsDir :: "escFile \<Rightarrow> bool" where
  "IsDir f = isDir f"

definition Sys :: "ptr \<Rightarrow> ptr" where
  "Sys p = p"

text \<open>\<^verbatim>\<open>Readdir\<close> (lines 102--121).  The result slice \<^verbatim>\<open>fis[0:limit]\<close> is in range: \<open>limit\<close> is
  the length of the listing, or a \<open>count\<close> that is positive and at most that length.\<close>

definition Readdir :: "(string \<rightharpoonup> ptr list) \<Rightarrow> escFile \<Rightarrow> int \<Rightarrow> error + ptr list" where
  "Readdir dirs f count =
     (if \<not> isDir f then
        Inl (Errorf ('' escFile.Readdir: '' @ [CHR 0x27] @ name f @ [CHR 0x27] @ '' is not directory''))
      else
        (case dirs (local f) of
           None \<Rightarrow>
             Inl (Errorf ('' escFile.Readdir: '' @ [CHR 0x27] @ name f @ [CHR 0x27] @
                          '' is directory, but we have no info about content of this dir, local=''
                          @ local f))
         | Some fis \<Rightarrow>
             (let limit = (if count \<le> 0 \<or> count > int (length fis) then int (length fis) else count)
              in if length fis = 0 \<and> count > 0 then Inl EOF
                 else Inr (take (nat limit) fis))))"

text \<open>A method called through a pointer reads the object the pointer refers to.\<close>

definition deref :: "state \<Rightarrow> ptr \<Rightarrow> error + escFile" where
  "deref st p = (case escData st p of None \<Rightarrow> Inl NilDereference | Some f \<Rightarrow> Inr f)"

definition Readdir_at :: "state \<Rightarrow> ptr \<Rightarrow> int \<Rightarrow> error + ptr list" where
  "Readdir_at st p count =
     (case deref st p of Inl e \<Rightarrow> Inl e | Inr f \<Rightarrow> Readdir (escDirs st) f count)"

subsection \<open>The three \<^verbatim>\<open>http.FileSystem\<close> implementations and the facade\<close>

datatype FileSystem = escLocalFS | escStaticFS | escDirectory FileSystem string

text \<open>\<^verbatim>\<open>_escLocalFS.Open\<close> (lines 42--48), \<^verbatim>\<open>_escStaticFS.Open\<close> (lines 75--81) and
  \<^verbatim>\<open>_escDirectory.Open\<close> (lines 83--85).\<close>

definition escLocalFS_Open :: "'h stdlib \<Rightarrow> string \<Rightarrow> state \<Rightarrow> error + 'h" where
  "escLocalFS_Open L nm st =
     (case escData st (path_Clean nm) of
        None \<Rightarrow> Inl ErrNotExist
      | Some f \<Rightarrow> os_Open L (local f))"

definition escStaticFS_Open :: "'h stdlib \<Rightarrow> string \<Rightarrow> state \<Rightarrow> (error + 'h http_File) \<times> state" where
  "escStaticFS_Open L nm st =
     (case prepare L nm st of
        (Inl e, st') \<Rightarrow> (Inl e, st')
      | (Inr p, st') \<Rightarrow> (File st' p, st'))"

text \<open>\<^verbatim>\<open>Open\<close> through the interface \<^verbatim>\<open>http.FileSystem\<close> dispatches on the implementation.\<close>

fun Open :: "'h stdlib \<Rightarrow> FileSystem \<Rightarrow> string \<Rightarrow> state \<Rightarrow> (error + 'h http_File) \<times> state" where
  "Open L escLocalFS nm st =
     (case escLocalFS_Open L nm st of
        Inl e \<Rightarrow> (Inl e, st)
      | Inr h \<Rightarrow> (Inr (OsFile h), st))"
| "Open L escStaticFS nm st = escStaticFS_Open L nm st"
| "Open L (escDirectory fs dname) nm st = Open L fs (dname @ nm) st"

text \<open>\<^verbatim>\<open>FS\<close> (lines 153--158) and \<^verbatim>\<open>Dir\<close> (lines 162--167).\<close>

definition FS :: "bool \<Rightarrow> FileSystem" where
  "FS useLocal = (if useLocal then escLocalFS else escStaticFS)"

definition Dir :: "bool \<Rightarrow> string \<Rightarrow> FileSystem" where
  "Dir useLocal dname =
     (if useLocal then escDirectory escLocalFS dname else escDirectory escStaticFS dname)"

text \<open>\<^verbatim>\<open>FSByte\<close> (lines 171--186) returns a pair in Go, and in local mode both components can
  be set: \<^verbatim>\<open>ReadAll\<close>'s data and error are passed on as they are.  In embedded mode the result
  is the descriptor's \<^verbatim>\<open>data\<close> field, read after \<^verbatim>\<open>prepare\<close>.\<close>

definition FSByte :: "'h stdlib \<Rightarrow> bool \<Rightarrow> string \<Rightarrow> state \<Rightarrow> (bytes \<times> error option) \<times> state" where
  "FSByte L useLocal nm st =
     (if useLocal then
        (case escLocalFS_Open L nm st of
           Inl e \<Rightarrow> (([], Some e), st)
         | Inr h \<Rightarrow> (os_ReadAll L h, st))
      else
        (case prepare L nm st of
           (Inl e, st') \<Rightarrow> (([], Some e), st')
         | (Inr p, st') \<Rightarrow>
             (case deref st' p of
                Inl e \<Rightarrow> (([], Some e), st')
              | Inr f \<Rightarrow> ((data f, None), st'))))"

text \<open>\<^verbatim>\<open>FSMustByte\<close> (lines 189--195) panics with the error; \<^verbatim>\<open>FSString\<close> and
  \<^verbatim>\<open>FSMustString\<close> (lines 198--206) convert the bytes to a string, which is the identity on
  byte sequences.\<close>

definition FSMustByte :: "'h stdlib \<Rightarrow> bool \<Rightarrow> string \<Rightarrow> state \<Rightarrow> (error + bytes) \<times> state" where
  "FSMustByte L useLocal nm st =
     (case FSByte L useLocal nm st of
        ((b, Some e), st') \<Rightarrow> (Inl e, st')
      | ((b, None), st') \<Rightarrow> (Inr b, st'))"

definition FSString :: "'h stdlib \<Rightarrow> bool \<Rightarrow> string \<Rightarrow> state \<Rightarrow> (string \<times> error option) \<times> state" where
  "FSString L useLocal nm st = FSByte L useLocal nm st"

definition FSMustString :: "'h stdlib \<Rightarrow> bool \<Rightarrow> string \<Rightarrow> state \<Rightarrow> (error + string) \<times> state" where
  "FSMustString L useLocal nm st = FSMustByte L useLocal nm st"

section \<open>An executable instance of the library interface\<close>

text \<open>
  The properties below are proved for every instance of \<open>stdlib\<close>.  To run the model on
  concrete registries an instance is needed; this section defines one: a base64 decoder for the
  standard alphabet that skips line breaks (RFC 4648), a gzip member reader (RFC 1952) with the
  CRC-32 and length check of the trailer, and a complete DEFLATE decompressor (RFC 1951: stored,
  fixed and dynamic blocks).  It follows the structure of Go's \<^verbatim>\<open>encoding/base64\<close>,
  \<^verbatim>\<open>compress/gzip\<close> and \<^verbatim>\<open>compress/flate\<close>: which error is reported where, that a failing
  reader first hands out what it has decoded, and that concatenated members are read as one
  stream.  Offsets inside error values are not modelled.  The functions work on lists of bits
  and on binary trees rather than on machine words and arrays, so that they can be evaluated
  by rewriting.
\<close>

subsection \<open>Bits and bytes\<close>

type_synonym bits = "bool list"

fun bits_of_char :: "char \<Rightarrow> bits" where
  "bits_of_char (Char b0 b1 b2 b3 b4 b5 b6 b7) = [b0, b1, b2, b3, b4, b5, b6, b7]"

fun bits_of_bytes :: "bytes \<Rightarrow> bits" where
  "bits_of_bytes [] = []"
| "bits_of_bytes (Char b0 b1 b2 b3 b4 b5 b6 b7 # cs) =
     b0 # b1 # b2 # b3 # b4 # b5 # b6 # b7 # bits_of_bytes cs"

text \<open>Bytes from bits, least significant bit first; bits that do not fill a byte are dropped.\<close>

fun bytes_of_bits :: "bits \<Rightarrow> bytes" where
  "bytes_of_bits (b0 # b1 # b2 # b3 # b4 # b5 # b6 # b7 # rest) =
     Char b0 b1 b2 b3 b4 b5 b6 b7 # bytes_of_bits rest"
| "bytes_of_bits rest = []"

text \<open>The same, most significant bit first.\<close>

fun bytes_msb :: "bits \<Rightarrow> bytes" where
  "bytes_msb (b7 # b6 # b5 # b4 # b3 # b2 # b1 # b0 # rest) =
     Char b0 b1 b2 b3 b4 b5 b6 b7 # bytes_msb rest"
| "bytes_msb rest = []"

text \<open>Integers are read and written least significant bit first.\<close>

fun int_of_bits :: "bits \<Rightarrow> int" where
  "int_of_bits [] = 0"
| "int_of_bits (b # bs) = (if b then 1 else 0) + 2 * int_of_bits bs"

fun bits_of_int :: "nat \<Rightarrow> int \<Rightarrow> bits" where
  "bits_of_int 0 v = []"
| "bits_of_int (Suc k) v = odd v # bits_of_int k (v div 2)"

fun take_bits :: "nat \<Rightarrow> bits \<Rightarrow> (bits \<times> bits) option" where
  "take_bits 0 bs = Some ([], bs)"
| "take_bits (Suc k) [] = None"
| "take_bits (Suc k) (b # bs) =
     (case take_bits k bs of None \<Rightarrow> None | Some (xs, r) \<Rightarrow> Some (b # xs, r))"

definition read_bits :: "nat \<Rightarrow> bits \<Rightarrow> (int \<times> bits) option" where
  "read_bits k bs = (case take_bits k bs of None \<Rightarrow> None | Some (xs, r) \<Rightarrow> Some (int_of_bits xs, r))"

text \<open>The suffix of a bit sequence that starts at the next byte boundary, for a sequence that
  ends on one: first measure the sequence eight bits at a time, then drop what is left over.\<close>

fun left_over :: "bits \<Rightarrow> nat" where
  "left_over (b0 # b1 # b2 # b3 # b4 # b5 # b6 # b7 # rest) = left_over rest"
| "left_over rest = length rest"

definition byte_align :: "bits \<Rightarrow> bits" where
  "byte_align bs = drop (left_over bs) bs"

text \<open>All bit sequences of a given length, most significant bit first, in counting order.\<close>

primrec count_bits :: "nat \<Rightarrow> bits list" where
  "count_bits 0 = [[]]"
| "count_bits (Suc k) = map ((#) False) (count_bits k) @ map ((#) True) (count_bits k)"

subsection \<open>Binary trees indexed by bits\<close>

text \<open>Huffman codes and the byte-indexed tables below are binary trees: the bits of a code or
  of an index select the path from the root, and the leaf holds what is coded or stored.\<close>

datatype 'a htree = HNil | HLeaf 'a | HNode "'a htree" "'a htree"

fun tree_insert :: "bits \<Rightarrow> 'a \<Rightarrow> 'a htree \<Rightarrow> 'a htree" where
  "tree_insert [] x t = HLeaf x"
| "tree_insert (False # bs) x (HNode l r) = HNode (tree_insert bs x l) r"
| "tree_insert (True # bs) x (HNode l r) = HNode l (tree_insert bs x r)"
| "tree_insert (False # bs) x t = HNode (tree_insert bs x HNil) HNil"
| "tree_insert (True # bs) x t = HNode HNil (tree_insert bs x HNil)"

fun tree_lookup :: "'a htree \<Rightarrow> bits \<Rightarrow> 'a option" where
  "tree_lookup (HLeaf x) [] = Some x"
| "tree_lookup (HNode l r) (False # bs) = tree_lookup l bs"
| "tree_lookup (HNode l r) (True # bs) = tree_lookup r bs"
| "tree_lookup t bs = None"

subsection \<open>CRC-32 (IEEE polynomial, reflected)\<close>

fun bxor :: "bool \<Rightarrow> bool \<Rightarrow> bool" where
  "bxor False b = b"
| "bxor True False = True"
| "bxor True True = False"

fun xor_bits :: "bits \<Rightarrow> bits \<Rightarrow> bits" where
  "xor_bits (a # as) (b # bs) = bxor a b # xor_bits as bs"
| "xor_bits as [] = as"
| "xor_bits [] bs = bs"

text \<open>The polynomial \<^verbatim>\<open>0xedb88320\<close>, least significant bit first.\<close>

definition crc_poly :: bits where
  "crc_poly =
     [False, False, False, False, False, True, False, False,
      True, True, False, False, False, False, False, True,
      False, False, False, True, True, True, False, True,
      True, False, True, True, False, True, True, True]"

fun crc_shift :: "bits \<Rightarrow> bits" where
  "crc_shift [] = []"
| "crc_shift (False # cs) = cs @ [False]"
| "crc_shift (True # cs) = xor_bits (cs @ [False]) crc_poly"

text \<open>\<^verbatim>\<open>crc32.IEEETable\<close>: entry \<open>i\<close> is \<open>i\<close> shifted eight times.  The table is the tree of its
  256 entries under the bits of \<open>i\<close>, least significant first; \<open>ix\<close> collects them in reverse.\<close>

primrec crc_table_from :: "nat \<Rightarrow> bits \<Rightarrow> bits htree" where
  "crc_table_from 0 ix = HLeaf ((crc_shift ^^ 8) (rev ix @ replicate 24 False))"
| "crc_table_from (Suc k) ix =
     HNode (crc_table_from k (False # ix)) (crc_table_from k (True # ix))"

definition crc32_IEEETable :: "bits htree" where
  "crc32_IEEETable = crc_table_from 8 []"

text \<open>Exclusive or, eight bits at a time; where the second sequence ends the first continues
  unchanged, as if zeros were shifted in.\<close>

fun xor8 :: "bits \<Rightarrow> bits \<Rightarrow> bits" where
  "xor8 (a0 # a1 # a2 # a3 # a4 # a5 # a6 # a7 # as) (b0 # b1 # b2 # b3 # b4 # b5 # b6 # b7 # bs) =
     bxor a0 b0 # bxor a1 b1 # bxor a2 b2 # bxor a3 b3 #
     bxor a4 b4 # bxor a5 b5 # bxor a6 b6 # bxor a7 b7 # xor8 as bs"
| "xor8 as bs = as"

text \<open>One byte: \<^verbatim>\<open>crc = tab[byte(crc)^v] ^ (crc >> 8)\<close>.\<close>

fun crc_byte :: "bits htree \<Rightarrow> bits \<Rightarrow> char \<Rightarrow> bits" where
  "crc_byte tab (c0 # c1 # c2 # c3 # c4 # c5 # c6 # c7 # cs) (Char b0 b1 b2 b3 b4 b5 b6 b7) =
     (case tree_lookup tab
             [bxor c0 b0, bxor c1 b1, bxor c2 b2, bxor c3 b3,
              bxor c4 b4, bxor c5 b5, bxor c6 b6, bxor c7 b7] of
        Some entry \<Rightarrow> xor8 entry cs
      | None \<Rightarrow> [])"
| "crc_byte tab crc c = []"

definition crc32_update :: "bits htree \<Rightarrow> bits \<Rightarrow> bytes \<Rightarrow> bits" where
  "crc32_update tab crc p = map Not (foldl (crc_byte tab) (map Not crc) p)"

definition crc32_ChecksumIEEE :: "bytes \<Rightarrow> bits" where
  "crc32_ChecksumIEEE p = crc32_update crc32_IEEETable (replicate 32 False) p"

subsection \<open>base64\<close>

text \<open>What a character of the text is to the decoder: one of the 64 digits, with its six bits
  most significant first, the padding character, or a line break, which is skipped.  Any other
  character is not in the map.\<close>

datatype b64_char = Digit bits | Pad | Skip

definition encodeStd :: string where
  "encodeStd = ''ABCDEFGHIJKLMNOPQRSTUVWXYZabcdefghijklmnopqrstuvwxyz0123456789+/''"

definition decodeMap :: "b64_char htree" where
  "decodeMap =
     tree_insert (bits_of_char CHR 0x0A) Skip
       (tree_insert (bits_of_char CHR 0x0D) Skip
          (tree_insert (bits_of_char CHR ''='') Pad
             (foldr (\<lambda>(c, v). tree_insert (bits_of_char c) (Digit v))
                (zip encodeStd (count_bits 6)) HNil)))"

fun classify :: "b64_char htree \<Rightarrow> string \<Rightarrow> b64_char option list" where
  "classify m [] = []"
| "classify m (c # cs) =
     (case tree_lookup m (bits_of_char c) of
        Some Skip \<Rightarrow> classify m cs
      | x \<Rightarrow> x # classify m cs)"

text \<open>The decoder works on the text without its line breaks, four characters at a time.
  Padding is accepted only as the last one or two characters of a group, and only at the end
  of the text: the bytes of a padded group are still delivered when text follows it, and then
  the input is reported corrupt.  (Go's stream decoder works on blocks of at most 1024
  characters and notices such text only inside the block of the padding.)  Fewer than four
  characters at the end are an unexpected end of input.\<close>

fun b64_quanta :: "b64_char option list \<Rightarrow> reader" where
  "b64_quanta [] = ([], EOF)"
| "b64_quanta (Some (Digit v1) # Some (Digit v2) # Some (Digit v3) # Some (Digit v4) # rest) =
     (case b64_quanta rest of (out, e) \<Rightarrow> (bytes_msb (v1 @ v2 @ v3 @ v4) @ out, e))"
| "b64_quanta (Some (Digit v1) # Some (Digit v2) # Some (Digit v3) # Some Pad # rest) =
     (bytes_msb (v1 @ v2 @ v3), if rest = [] then EOF else Base64CorruptInput)"
| "b64_quanta (Some (Digit v1) # Some (Digit v2) # Some Pad # Some Pad # rest) =
     (bytes_msb (v1 @ v2), if rest = [] then EOF else Base64CorruptInput)"
| "b64_quanta (c1 # c2 # c3 # c4 # rest) = ([], Base64CorruptInput)"
| "b64_quanta short = ([], ErrUnexpectedEOF)"

definition go_base64_NewDecoder :: "string \<Rightarrow> reader" where
  "go_base64_NewDecoder text = b64_quanta (classify decodeMap text)"

subsection \<open>DEFLATE: Huffman codes\<close>

text \<open>A code is given by the code length of each symbol, 0 for a symbol without a code.
  Canonical codes are assigned by increasing length and, within a length, in symbol order.
  \<open>buckets\<close> sorts the symbols accordingly: the first bucket holds the symbols of length 1, the
  last those of length 15.\<close>

fun bucket_insert :: "nat \<Rightarrow> 'a \<Rightarrow> 'a list list \<Rightarrow> 'a list list" where
  "bucket_insert l x [] = []"
| "bucket_insert 0 x (b # bs) = (x # b) # bs"
| "bucket_insert (Suc l) x (b # bs) = b # bucket_insert l x bs"

fun fill_buckets :: "nat list \<Rightarrow> 'a list \<Rightarrow> 'a list list \<Rightarrow> 'a list list" where
  "fill_buckets (0 # ls) (x # xs) bs = fill_buckets ls xs bs"
| "fill_buckets (Suc l # ls) (x # xs) bs = fill_buckets ls xs (bucket_insert l x bs)"
| "fill_buckets ls xs bs = bs"

definition buckets :: "nat list \<Rightarrow> 'a list \<Rightarrow> 'a list list" where
  "buckets lens syms = map rev (fill_buckets lens syms (replicate 15 []))"

fun all_empty :: "'a list list \<Rightarrow> bool" where
  "all_empty [] = True"
| "all_empty ([] # bs) = all_empty bs"
| "all_empty ((x # b) # bs) = False"

text \<open>The code tree.  The argument lists the buckets from the current depth on.  A symbol of
  the current depth becomes a leaf; without one, and with longer codes left, both subtrees are
  built one level down, the left one first.\<close>

primrec mk_tree :: "nat \<Rightarrow> 'a list list \<Rightarrow> 'a htree \<times> 'a list list" where
  "mk_tree 0 bs = (HNil, bs)"
| "mk_tree (Suc k) bs =
     (case bs of
        [] \<Rightarrow> (HNil, [])
      | (x # b) # rest \<Rightarrow> (HLeaf x, b # rest)
      | [] # rest \<Rightarrow>
          if all_empty rest then (HNil, bs)
          else
            (case mk_tree k rest of
               (t1, r1) \<Rightarrow> (case mk_tree k r1 of (t2, r2) \<Rightarrow> (HNode t1 t2, [] # r2))))"

fun complete :: "'a htree \<Rightarrow> bool" where
  "complete HNil = False"
| "complete (HLeaf x) = True"
| "complete (HNode l r) = (if complete l then complete r else False)"

fun single :: "'a list list \<Rightarrow> bool" where
  "single ([x] # bs) = all_empty bs"
| "single bs = False"

text \<open>\<^verbatim>\<open>huffmanDecoder.init\<close>: an empty code is accepted (and fails when used); otherwise every
  symbol must get its code and no code may stay unused, or the code consists of a single code
  of length 1.\<close>

definition huffmanDecoder_init :: "nat list \<Rightarrow> 'a list \<Rightarrow> 'a htree option" where
  "huffmanDecoder_init lens syms =
     (if all_empty (buckets lens syms) then Some HNil
      else
        (case mk_tree 16 ([] # buckets lens syms) of
           (t, r) \<Rightarrow>
             if all_empty r \<and> complete t then Some t
             else if single (buckets lens syms) then Some t
             else None))"

text \<open>\<^verbatim>\<open>huffSym\<close>: one symbol is read by walking the tree along the input bits.  \<open>ue\<close> is the
  error to report when the input runs out.  No symbol has a code of length 0.\<close>

fun walk :: "error \<Rightarrow> 'a htree \<Rightarrow> bits \<Rightarrow> error + 'a \<times> bits" where
  "walk ue HNil bs = Inl FlateCorruptInput"
| "walk ue (HLeaf x) bs = Inr (x, bs)"
| "walk ue (HNode l r) [] = Inl ue"
| "walk ue (HNode l r) (False # bs) = walk ue l bs"
| "walk ue (HNode l r) (True # bs) = walk ue r bs"

definition huffSym :: "error \<Rightarrow> 'a htree \<Rightarrow> bits \<Rightarrow> error + 'a \<times> bits" where
  "huffSym ue h bs = (case h of HLeaf x \<Rightarrow> Inl FlateCorruptInput | _ \<Rightarrow> walk ue h bs)"

text \<open>Reading never lengthens the input, and reading a symbol shortens it.\<close>

lemma walk_length: "walk ue h bs = Inr (v, r) \<Longrightarrow> length r \<le> length bs"
  by (induction ue h bs rule: walk.induct) auto

lemma huffSym_length: "huffSym ue h bs = Inr (v, r) \<Longrightarrow> length r < length bs"
proof (cases h)
  case (HNode l r')
  assume ok: "huffSym ue h bs = Inr (v, r)"
  show ?thesis
  proof (cases bs)
    case Nil
    with HNode ok show ?thesis by (simp add: huffSym_def)
  next
    case (Cons b bs')
    with HNode ok have "walk ue (if b then r' else l) bs' = Inr (v, r)"
      by (cases b) (simp_all add: huffSym_def)
    then have "length r \<le> length bs'" by (rule walk_length)
    with Cons show ?thesis by simp
  qed
qed (simp_all add: huffSym_def)

lemma take_bits_length: "take_bits k bs = Some (xs, r) \<Longrightarrow> length r \<le> length bs"
  by (induction k bs arbitrary: xs rule: take_bits.induct) (auto split: option.splits)

lemma read_bits_length: "read_bits k bs = Some (x, r) \<Longrightarrow> length r \<le> length bs"
  by (auto simp: read_bits_def split: option.splits dest: take_bits_length)

subsection \<open>DEFLATE: the alphabets\<close>

text \<open>What a symbol of the literal/length alphabet stands for: a literal byte (0--255), the
  end of the block (256), a match length given by its base and the number of extra bits
  (257--285), or nothing (286, 287, which only the fixed code can produce).  For 257--284 the
  table has the values that the switch of \<^verbatim>\<open>huffmanBlock\<close> computes.\<close>

datatype litlen = Lit char | EndBlock | Len int nat | BadLitLen

definition length_table :: "(int \<times> nat) list" where
  "length_table =
     [(3, 0), (4, 0), (5, 0), (6, 0), (7, 0), (8, 0), (9, 0), (10, 0),
      (11, 1), (13, 1), (15, 1), (17, 1), (19, 2), (23, 2), (27, 2), (31, 2),
      (35, 3), (43, 3), (51, 3), (59, 3), (67, 4), (83, 4), (99, 4), (115, 4),
      (131, 5), (163, 5), (195, 5), (227, 5), (258, 0)]"

definition litlen_alphabet :: "litlen list" where
  "litlen_alphabet =
     map Lit (bytes_msb (concat (count_bits 8))) @ [EndBlock] @
     map (\<lambda>(len0, nb). Len len0 nb) length_table @ [BadLitLen, BadLitLen]"

text \<open>Distance symbols 0--29: the base distance and the number of extra bits; 30 and 31 stand
  for nothing.\<close>

definition dist_alphabet :: "(int \<times> nat) option list" where
  "dist_alphabet =
     map Some
       [(1, 0), (2, 0), (3, 0), (4, 0), (5, 1), (7, 1), (9, 2), (13, 2),
        (17, 3), (25, 3), (33, 4), (49, 4), (65, 5), (97, 5), (129, 6), (193, 6),
        (257, 7), (385, 7), (513, 8), (769, 8), (1025, 9), (1537, 9), (2049, 10), (3073, 10),
        (4097, 11), (6145, 11), (8193, 12), (12289, 12), (16385, 13), (24577, 13)] @
     [None, None]"

text \<open>The symbols of the code-length alphabet are the numbers 0 to 18.\<close>

definition clen_alphabet :: "nat list" where
  "clen_alphabet = [0, 1, 2, 3, 4, 5, 6, 7, 8, 9, 10, 11, 12, 13, 14, 15, 16, 17, 18]"

subsection \<open>DEFLATE: blocks\<close>

text \<open>The decompressor state that matters: the unread input bits, the output of this stream so
  far in reverse (last byte first) and its length.  A step returns the error that stopped it,
  if any, with that state.\<close>

type_synonym flate_state = "bits \<times> bytes \<times> int"

text \<open>Copying \<open>len\<close> bytes from \<open>dist\<close> bytes back, \<open>dist\<close> bytes at a time when the two
  ranges overlap (\<^verbatim>\<open>dictDecoder.writeCopy\<close>).  On the reversed output the last \<open>dist\<close> bytes
  are its first \<open>dist\<close> elements, and the \<open>len\<close> oldest of them are copied.\<close>

function lz_copy :: "int \<Rightarrow> int \<Rightarrow> bytes \<Rightarrow> bytes" where
  "lz_copy len dist out =
     (if dist \<le> 0 \<or> len \<le> dist then take (nat len) (drop (nat (dist - len)) out) @ out
      else lz_copy (len - dist) dist (take (nat dist) out @ out))"
  by pat_completeness auto
termination
  by (relation "measure (\<lambda>(len, dist, out). nat len)") auto

declare lz_copy.simps [simp del]

text \<open>\<^verbatim>\<open>huffmanBlock\<close>: literals, end of block, and length/distance pairs.  A distance that
  reaches back before the start of the output, or beyond the window of 32768 bytes, is corrupt
  input.\<close>

function huffmanBlock ::
  "error \<Rightarrow> litlen htree \<Rightarrow> (int \<times> nat) option htree \<Rightarrow> flate_state \<Rightarrow> error option \<times> flate_state"
where
  "huffmanBlock ue hlit hdist (bs, out, n) =
     (case huffSym ue hlit bs of
        Inl e \<Rightarrow> (Some e, bs, out, n)
      | Inr (v, bs1) \<Rightarrow>
          (case v of
             Lit c \<Rightarrow> huffmanBlock ue hlit hdist (bs1, c # out, n + 1)
           | EndBlock \<Rightarrow> (None, bs1, out, n)
           | BadLitLen \<Rightarrow> (Some FlateCorruptInput, bs1, out, n)
           | Len len0 nb \<Rightarrow>
               (case read_bits nb bs1 of
                  None \<Rightarrow> (Some ue, bs1, out, n)
                | Some (x, bs2) \<Rightarrow>
                    (case huffSym ue hdist bs2 of
                       Inl e \<Rightarrow> (Some e, bs2, out, n)
                     | Inr (d, bs3) \<Rightarrow>
                         (case d of
                            None \<Rightarrow> (Some FlateCorruptInput, bs3, out, n)
                          | Some (dist0, db) \<Rightarrow>
                              (case read_bits db bs3 of
                                 None \<Rightarrow> (Some ue, bs3, out, n)
                               | Some (y, bs4) \<Rightarrow>
                                   if dist0 + y > min n 32768
                                   then (Some FlateCorruptInput, bs4, out, n)
                                   else huffmanBlock ue hlit hdist
                                          (bs4, lz_copy (len0 + x) (dist0 + y) out,
                                           n + (len0 + x))))))))"
  by pat_completeness auto
termination
proof (relation "measure (\<lambda>(ue, hlit, hdist, bs, out, n). length bs)")
  fix ue bs b y and hlit :: "litlen htree" and x :: litlen
  assume "huffSym ue hlit bs = Inr b" "(x, y) = b"
  then show "((ue, hlit, hdist, y, c # out, n + 1), ue, hlit, hdist, bs, out, n)
             \<in> measure (\<lambda>(ue, hlit, hdist, bs, out, n). length bs)" for hdist out n c
    using huffSym_length [of ue hlit bs x y] by simp
next
  fix ue bs b y x2a xb yb ba yc x2c xe ye and ya yd :: nat
    and hlit :: "litlen htree" and hdist :: "(int \<times> nat) option htree"
    and x :: litlen and xc :: "(int \<times> nat) option"
  assume "huffSym ue hlit bs = Inr b" "(x, y) = b" "read_bits ya y = Some x2a" "(xb, yb) = x2a"
    "huffSym ue hdist yb = Inr ba" "(xc, yc) = ba" "read_bits yd yc = Some x2c" "(xe, ye) = x2c"
  then have "length y < length bs" "length yb \<le> length y" "length yc < length yb"
    "length ye \<le> length yc"
    using huffSym_length [of ue hlit bs x y] read_bits_length [of ya y xb yb]
      huffSym_length [of ue hdist yb xc yc] read_bits_length [of yd yc xe ye]
    by simp_all
  then show "((ue, hlit, hdist, ye, out', n'), ue, hlit, hdist, bs, out, n)
             \<in> measure (\<lambda>(ue, hlit, hdist, bs, out, n). length bs)" for out out' n n'
    by simp
qed simp

declare huffmanBlock.simps [simp del]

lemma huffmanBlock_length:
  "huffmanBlock ue hlit hdist st = (e, bs', out', n') \<Longrightarrow> length bs' \<le> length (fst st)"
proof (induction ue hlit hdist st arbitrary: e bs' out' n' rule: huffmanBlock.induct)
  case (1 ue hlit hdist bs out n)
  note prem = "1.prems" [unfolded huffmanBlock.simps [of ue hlit hdist bs out n]]
  show ?case
  proof (cases "huffSym ue hlit bs")
    case (Inl err)
    with prem show ?thesis by simp
  next
    case (Inr p)
    obtain v bs1 where p: "p = (v, bs1)" by (cases p)
    from Inr p have l1: "length bs1 < length bs" by (auto dest: huffSym_length)
    show ?thesis
    proof (cases v)
      case (Lit c)
      with Inr p prem
      have "huffmanBlock ue hlit hdist (bs1, c # out, n + 1) = (e, bs', out', n')"
        by simp
      from "1.IH"(1) [OF Inr p [symmetric] Lit this] l1 show ?thesis by simp
    next
      case EndBlock
      with Inr p prem l1 show ?thesis by simp
    next
      case BadLitLen
      with Inr p prem l1 show ?thesis by simp
    next
      case (Len len0 nb)
      show ?thesis
      proof (cases "read_bits nb bs1")
        case None
        with Inr p Len prem l1 show ?thesis by simp
      next
        case rb: (Some xr)
        obtain x bs2 where xr: "xr = (x, bs2)" by (cases xr)
        from rb xr have l2: "length bs2 \<le> length bs1" by (auto dest: read_bits_length)
        show ?thesis
        proof (cases "huffSym ue hdist bs2")
          case (Inl err)
          with Inr p Len rb xr prem l1 l2 show ?thesis by simp
        next
          case hd: (Inr q)
          obtain d bs3 where q: "q = (d, bs3)" by (cases q)
          from hd q have l3: "length bs3 < length bs2" by (auto dest: huffSym_length)
          show ?thesis
          proof (cases d)
            case None
            with Inr p Len rb xr hd q prem l1 l2 l3 show ?thesis by simp
          next
            case dc: (Some dd)
            obtain dist0 db where dd: "dd = (dist0, db)" by (cases dd)
            show ?thesis
            proof (cases "read_bits db bs3")
              case None
              with Inr p Len rb xr hd q dc dd prem l1 l2 l3 show ?thesis
                by simp
            next
              case rd: (Some yr)
              obtain y bs4 where yr: "yr = (y, bs4)" by (cases yr)
              from rd yr have l4: "length bs4 \<le> length bs3" by (auto dest: read_bits_length)
              show ?thesis
              proof (cases "dist0 + y > min n 32768")
                case True
                with Inr p Len rb xr hd q dc dd rd yr prem l1 l2 l3 l4
                show ?thesis by simp
              next
                case ok: False
                with Inr p Len rb xr hd q dc dd rd yr prem
                have "huffmanBlock ue hlit hdist
                        (bs4, lz_copy (len0 + x) (dist0 + y) out, n + (len0 + x)) =
                      (e, bs', out', n')"
                  by simp
                from "1.IH"(2) [OF Inr p [symmetric] Len rb xr [symmetric] hd q [symmetric]
                    dc dd [symmetric] rd yr [symmetric] ok this] l1 l2 l3 l4
                show ?thesis by simp
              qed
            qed
          qed
        qed
      qed
    qed
  qed
qed

text \<open>\<^verbatim>\<open>dataBlock\<close>: a stored block starts at the next byte boundary with the length and its
  complement, 16 bits each.  When the input ends inside the data, the bytes that are there are
  still written.\<close>

definition dataBlock :: "error \<Rightarrow> flate_state \<Rightarrow> error option \<times> flate_state" where
  "dataBlock ue st =
     (case st of
        (bs, out, n) \<Rightarrow>
          (case take_bits 32 (byte_align bs) of
             None \<Rightarrow> (Some ue, [], out, n)
           | Some (hdr, bs1) \<Rightarrow>
               if int_of_bits (drop 16 hdr) \<noteq> 65535 - int_of_bits (take 16 hdr)
               then (Some FlateCorruptInput, bs1, out, n)
               else
                 (case take_bits (8 * nat (int_of_bits (take 16 hdr))) bs1 of
                    Some (d, bs2) \<Rightarrow>
                      (None, bs2, rev (bytes_of_bits d) @ out, n + int_of_bits (take 16 hdr))
                  | None \<Rightarrow>
                      (Some ue, [], rev (bytes_of_bits bs1) @ out,
                       n + int (length (bytes_of_bits bs1))))))"

text \<open>The fixed codes of block type 1.  The fixed distance code is five bits read most
  significant first, which is the canonical code of 32 symbols of length 5.\<close>

definition fixed_lengths :: "nat list" where
  "fixed_lengths = replicate 144 8 @ replicate 112 9 @ replicate 24 7 @ replicate 8 8"

definition fixedHuffmanDecoder :: "litlen htree" where
  "fixedHuffmanDecoder = fst (mk_tree 16 ([] # buckets fixed_lengths litlen_alphabet))"

definition fixedDistanceDecoder :: "(int \<times> nat) option htree" where
  "fixedDistanceDecoder = fst (mk_tree 16 ([] # buckets (replicate 32 5) dist_alphabet))"

text \<open>\<^verbatim>\<open>readHuffman\<close>: the header of a dynamic block.  First the lengths of the code-length
  code, three bits each, in the order \<open>codeOrder\<close>.\<close>

definition codeOrder :: "nat list" where
  "codeOrder = [16, 17, 18, 0, 8, 7, 9, 6, 10, 5, 11, 4, 12, 3, 13, 2, 14, 1, 15]"

fun read_codebits :: "nat \<Rightarrow> bits \<Rightarrow> (nat list \<times> bits) option" where
  "read_codebits 0 bs = Some ([], bs)"
| "read_codebits (Suc k) bs =
     (case read_bits 3 bs of
        None \<Rightarrow> None
      | Some (v, r) \<Rightarrow>
          (case read_codebits k r of None \<Rightarrow> None | Some (vs, r') \<Rightarrow> Some (nat v # vs, r')))"

definition codebits :: "nat list \<Rightarrow> nat list" where
  "codebits vs =
     map (\<lambda>k. case map_of (zip codeOrder vs) k of None \<Rightarrow> 0 | Some v \<Rightarrow> v) clen_alphabet"

text \<open>Then the code lengths of the literal/length and distance codes, written with the
  code-length code; \<open>todo\<close> counts the lengths still to come and \<open>acc\<close> holds those read so far,
  last first.  Symbols 16, 17 and 18 repeat the previous length or zero.\<close>

function read_lengths :: "error \<Rightarrow> nat htree \<Rightarrow> nat \<Rightarrow> bits \<Rightarrow> nat list \<Rightarrow> error + nat list \<times> bits" where
  "read_lengths ue h1 todo bs acc =
     (case todo of
        0 \<Rightarrow> Inr (rev acc, bs)
      | Suc t \<Rightarrow>
        (case huffSym ue h1 bs of
           Inl e \<Rightarrow> Inl e
         | Inr (x, bs1) \<Rightarrow>
             if x < 16 then read_lengths ue h1 t bs1 (x # acc)
             else if x > 18 then Inl FlateInternalError
             else if x = 16 \<and> acc = [] then Inl FlateCorruptInput
             else
               (case read_bits (if x = 16 then 2 else if x = 17 then 3 else 7) bs1 of
                  None \<Rightarrow> Inl ue
                | Some (k, bs2) \<Rightarrow>
                    if nat ((if x = 18 then 11 else 3) + k) > todo
                    then Inl FlateCorruptInput
                    else read_lengths ue h1 (todo - nat ((if x = 18 then 11 else 3) + k)) bs2
                           (replicate (nat ((if x = 18 then 11 else 3) + k))
                              (if x = 16 then hd acc else 0) @ acc))))"
  by pat_completeness auto
termination
proof (relation "measure (\<lambda>(ue, h1, todo, bs, acc). length bs)")
  fix ue bs b y and h1 :: "nat htree" and x :: nat
  assume "huffSym ue h1 bs = Inr b" "(x, y) = b"
  then show "((ue, h1, t, y, x # acc), ue, h1, todo, bs, acc)
             \<in> measure (\<lambda>(ue, h1, todo, bs, acc). length bs)"
    for t todo :: nat and acc :: "nat list"
    using huffSym_length [of ue h1 bs x y] by simp
next
  fix ue bs b y x2 xa ya and h1 :: "nat htree" and x :: nat
  assume "huffSym ue h1 bs = Inr b" "(x, y) = b"
    "read_bits (if x = 16 then 2 else if x = 17 then 3 else 7) y = Some x2" "(xa, ya) = x2"
  then have "length y < length bs" "length ya \<le> length y"
    using huffSym_length [of ue h1 bs x y]
      read_bits_length [of "if x = 16 then 2 else if x = 17 then 3 else 7" y xa ya]
    by simp_all
  then show "((ue, h1, todo', ya, acc'), ue, h1, todo, bs, acc)
             \<in> measure (\<lambda>(ue, h1, todo, bs, acc). length bs)"
    for todo todo' :: nat and acc acc' :: "nat list"
    by simp
qed simp

declare read_lengths.simps [simp del]

lemma read_lengths_length:
  "read_lengths ue h1 todo bs acc = Inr (lens, bs') \<Longrightarrow> length bs' \<le> length bs"
proof (induction ue h1 todo bs acc rule: read_lengths.induct)
  case (1 ue h1 todo bs acc)
  note prem = "1.prems" [unfolded read_lengths.simps [of ue h1 todo bs acc]]
  show ?case
  proof (cases todo)
    case 0
    with prem show ?thesis by simp
  next
    case (Suc t)
    show ?thesis
    proof (cases "huffSym ue h1 bs")
      case (Inl err)
      with Suc prem show ?thesis by simp
    next
      case (Inr p)
      obtain x bs1 where p: "p = (x, bs1)" by (cases p)
      from Inr p have l1: "length bs1 < length bs" by (auto dest: huffSym_length)
      show ?thesis
      proof (cases "x < 16")
        case True
        with Suc Inr p prem have "read_lengths ue h1 t bs1 (x # acc) = Inr (lens, bs')"
          by simp
        from "1.IH"(1) [OF Suc Inr p [symmetric] True this] l1 show ?thesis by simp
      next
        case ge: False
        from ge Suc Inr p prem have a: "\<not> x > 18" "\<not> (x = 16 \<and> acc = [])"
          by (auto split: if_splits)
        show ?thesis
        proof (cases "read_bits (if x = 16 then 2 else if x = 17 then 3 else 7) bs1")
          case None
          with ge a Suc Inr p prem show ?thesis
            by (auto split: if_splits)
        next
          case (Some kr)
          obtain k bs2 where kr: "kr = (k, bs2)" by (cases kr)
          from Some kr have l2: "length bs2 \<le> length bs1" by (auto dest: read_bits_length)
          from ge a Suc Inr p Some kr prem
          have b: "\<not> nat ((if x = 18 then 11 else 3) + k) > todo"
            by (auto split: if_splits)
          with ge a Suc Inr p Some kr prem
          have "read_lengths ue h1 (todo - nat ((if x = 18 then 11 else 3) + k)) bs2
                  (replicate (nat ((if x = 18 then 11 else 3) + k)) (if x = 16 then hd acc else 0) @ acc)
                = Inr (lens, bs')"
            by (auto split: if_splits)
          from "1.IH"(2) [OF Suc Inr p [symmetric] ge a(1) a(2) Some kr [symmetric] b this] l1 l2
          show ?thesis by simp
        qed
      qed
    qed
  qed
qed

definition readHuffman ::
  "error \<Rightarrow> bits \<Rightarrow> error + litlen htree \<times> (int \<times> nat) option htree \<times> bits" where
  "readHuffman ue bs =
     (case take_bits 14 bs of
        None \<Rightarrow> Inl ue
      | Some (hdr, bs1) \<Rightarrow>
          if int_of_bits (take 5 hdr) + 257 > 286 then Inl FlateCorruptInput
          else if int_of_bits (take 5 (drop 5 hdr)) + 1 > 30 then Inl FlateCorruptInput
          else
            (case read_codebits (nat (int_of_bits (drop 10 hdr) + 4)) bs1 of
               None \<Rightarrow> Inl ue
             | Some (vs, bs2) \<Rightarrow>
                 (case huffmanDecoder_init (codebits vs) clen_alphabet of
                    None \<Rightarrow> Inl FlateCorruptInput
                  | Some h1 \<Rightarrow>
                      (case read_lengths ue h1
                              (nat (int_of_bits (take 5 hdr) + 257 + (int_of_bits (take 5 (drop 5 hdr)) + 1)))
                              bs2 [] of
                         Inl e \<Rightarrow> Inl e
                       | Inr (lens, bs3) \<Rightarrow>
                           (case huffmanDecoder_init
                                   (take (nat (int_of_bits (take 5 hdr) + 257)) lens) litlen_alphabet of
                              None \<Rightarrow> Inl FlateCorruptInput
                            | Some hlit \<Rightarrow>
                                (case huffmanDecoder_init
                                        (drop (nat (int_of_bits (take 5 hdr) + 257)) lens) dist_alphabet of
                                   None \<Rightarrow> Inl FlateCorruptInput
                                 | Some hdist \<Rightarrow> Inr (hlit, hdist, bs3)))))))"

lemma read_codebits_length:
  "read_codebits k bs = Some (vs, r) \<Longrightarrow> length r \<le> length bs"
proof (induction k arbitrary: bs vs)
  case 0
  then show ?case by simp
next
  case (Suc k)
  then show ?case
    by (fastforce split: option.splits dest: read_bits_length)
qed

lemma readHuffman_length:
  "readHuffman ue bs = Inr (hlit, hdist, bs') \<Longrightarrow> length bs' \<le> length bs"
  unfolding readHuffman_def
  by (fastforce split: option.splits if_splits sum.splits
      dest: take_bits_length read_codebits_length read_lengths_length)

lemma dataBlock_length:
  "dataBlock ue (bs, out, n) = (e, bs', out', n') \<Longrightarrow> length bs' \<le> length bs"
  unfolding dataBlock_def byte_align_def
  by (fastforce split: option.splits if_splits dest: take_bits_length)

text \<open>One block after its three header bits: the two type bits select the block format.\<close>

definition block :: "error \<Rightarrow> bool \<Rightarrow> bool \<Rightarrow> flate_state \<Rightarrow> error option \<times> flate_state" where
  "block ue t0 t1 st =
     (if \<not> t0 \<and> \<not> t1 then dataBlock ue st
      else if t0 \<and> \<not> t1 then huffmanBlock ue fixedHuffmanDecoder fixedDistanceDecoder st
      else if \<not> t0 \<and> t1 then
        (case st of
           (bs, out, n) \<Rightarrow>
             (case readHuffman ue bs of
                Inl e \<Rightarrow> (Some e, bs, out, n)
              | Inr (hlit, hdist, bs1) \<Rightarrow> huffmanBlock ue hlit hdist (bs1, out, n)))
      else (Some FlateCorruptInput, st))"

lemma block_length:
  "block ue t0 t1 (bs, out, n) = (e, bs', out', n') \<Longrightarrow> length bs' \<le> length bs"
  unfolding block_def
  by (fastforce split: if_splits sum.splits dest: dataBlock_length huffmanBlock_length readHuffman_length)

text \<open>\<^verbatim>\<open>nextBlock\<close>, repeated until the block marked final or the first error.\<close>

function inflate :: "error \<Rightarrow> flate_state \<Rightarrow> error option \<times> flate_state" where
  "inflate ue (bs, out, n) =
     (case bs of
        final # t0 # t1 # bs1 \<Rightarrow>
          (case block ue t0 t1 (bs1, out, n) of
             (Some e, st') \<Rightarrow> (Some e, st')
           | (None, st') \<Rightarrow> if final then (None, st') else inflate ue st')
      | _ \<Rightarrow> (Some ue, bs, out, n))"
  by pat_completeness auto
termination
  apply (relation "measure (\<lambda>(ue, bs, out, n). length bs)")
   apply simp
  subgoal for ue bs out n final r0 t0 r1 t1 bs1 e st'
    using block_length [of ue t0 t1 bs1 out n None "fst st'" "fst (snd st')" "snd (snd st')"]
    by (cases st') auto
  done

declare inflate.simps [simp del]

lemma inflate_length:
  "inflate ue st = (e, bs', out', n') \<Longrightarrow> length bs' \<le> length (fst st)"
proof (induction ue st arbitrary: e bs' out' n' rule: inflate.induct)
  case (1 ue bs out n)
  show ?case
  proof (cases "\<exists>final t0 t1 bs1. bs = final # t0 # t1 # bs1")
    case False
    then have "inflate ue (bs, out, n) = (Some ue, bs, out, n)"
      by (auto simp: inflate.simps [of ue bs] split: list.splits)
    with "1.prems" show ?thesis by simp
  next
    case True
    then obtain final t0 t1 bs1 where bs: "bs = final # t0 # t1 # bs1" by blast
    obtain e1 st1 where b: "block ue t0 t1 (bs1, out, n) = (e1, st1)"
      by (cases "block ue t0 t1 (bs1, out, n)")
    obtain bs2 out2 n2 where st1: "st1 = (bs2, out2, n2)" by (cases st1)
    from b st1 have l: "length bs2 \<le> length bs1" using block_length by blast
    have eq: "inflate ue (bs, out, n) =
                (case e1 of Some e \<Rightarrow> (Some e, st1)
                 | None \<Rightarrow> if final then (None, st1) else inflate ue st1)"
      unfolding bs by (subst inflate.simps) (simp add: b)
    show ?thesis
    proof (cases "e1 = None \<and> \<not> final")
      case False
      with eq st1 "1.prems" l bs show ?thesis
        by (cases e1) (auto split: if_splits)
    next
      case True
      then have e1: "e1 = None" and nf: "\<not> final" by simp_all
      from True eq "1.prems" have "inflate ue st1 = (e, bs', out', n')"
        by simp
      from "1.IH" [OF bs refl refl b [symmetric] e1 nf this] st1 l bs show ?thesis
        by auto
    qed
  qed
qed

subsection \<open>gzip\<close>

text \<open>\<^verbatim>\<open>io.ReadFull\<close> of \<open>k\<close> bytes from a reader: when fewer are left, the reader's own error,
  except that a clean end after some bytes is an unexpected EOF.\<close>

definition readFull :: "nat \<Rightarrow> reader \<Rightarrow> error + bytes \<times> reader" where
  "readFull k r =
     (case r of
        (bs, e) \<Rightarrow>
          if k \<le> length bs then Inr (take k bs, (drop k bs, e))
          else Inl (if e = EOF \<and> bs \<noteq> [] then ErrUnexpectedEOF else e))"

definition noEOF :: "error \<Rightarrow> error" where
  "noEOF e = (if e = EOF then ErrUnexpectedEOF else e)"

text \<open>The optional header fields.  Each returns the header bytes read so far, which the header
  checksum covers, and the rest of the input.  A string field ends with a zero byte and is at
  most 511 bytes long.\<close>

definition read_extra :: "bool \<Rightarrow> bytes \<times> reader \<Rightarrow> error + bytes \<times> reader" where
  "read_extra flag hr =
     (case hr of
        (h, r) \<Rightarrow>
          if \<not> flag then Inr (h, r)
          else
            (case readFull 2 r of
               Inl e \<Rightarrow> Inl e
             | Inr (l, r1) \<Rightarrow>
                 (case readFull (nat (int_of_bits (bits_of_bytes l))) r1 of
                    Inl e \<Rightarrow> Inl e
                  | Inr (d, r2) \<Rightarrow> Inr (h @ l @ d, r2))))"

definition readString :: "bool \<Rightarrow> bytes \<times> reader \<Rightarrow> error + bytes \<times> reader" where
  "readString flag hr =
     (case hr of
        (h, (bs, e)) \<Rightarrow>
          if \<not> flag then Inr (h, (bs, e))
          else if length (takeWhile (\<lambda>c. c \<noteq> CHR 0x00) (take 512 bs)) = 512 then Inl GzipErrHeader
          else if length (takeWhile (\<lambda>c. c \<noteq> CHR 0x00) (take 512 bs)) < length bs then
            Inr (h @ take (length (takeWhile (\<lambda>c. c \<noteq> CHR 0x00) (take 512 bs)) + 1) bs,
                 (drop (length (takeWhile (\<lambda>c. c \<noteq> CHR 0x00) (take 512 bs)) + 1) bs, e))
          else Inl e)"

text \<open>\<^verbatim>\<open>Reader.readHeader\<close>.  The flag byte is the fourth; its bits 1 to 4 announce the header
  checksum, the extra field, the file name and the comment.  A failure to read the ten fixed
  bytes is returned as it is (at a clean end, \<^verbatim>\<open>io.EOF\<close>); later ones go through \<open>noEOF\<close>.\<close>

definition gzip_readHeader :: "reader \<Rightarrow> error + reader" where
  "gzip_readHeader r =
     (case readFull 10 r of
        Inl e \<Rightarrow> Inl e
      | Inr (h, r1) \<Rightarrow>
          if take 3 h = [CHR 0x1F, CHR 0x8B, CHR 0x08] then
            (case read_extra (bits_of_char (h ! 3) ! 2) (h, r1) of
               Inl e \<Rightarrow> Inl (noEOF e)
             | Inr hr2 \<Rightarrow>
                 (case readString (bits_of_char (h ! 3) ! 3) hr2 of
                    Inl e \<Rightarrow> Inl (noEOF e)
                  | Inr hr3 \<Rightarrow>
                      (case readString (bits_of_char (h ! 3) ! 4) hr3 of
                         Inl e \<Rightarrow> Inl (noEOF e)
                       | Inr (h4, r4) \<Rightarrow>
                           if bits_of_char (h ! 3) ! 1 then
                             (case readFull 2 r4 of
                                Inl e \<Rightarrow> Inl (noEOF e)
                              | Inr (d, r5) \<Rightarrow>
                                  if bits_of_bytes d = take 16 (crc32_ChecksumIEEE h4) then Inr r5
                                  else Inl GzipErrHeader)
                           else Inr r4)))
          else Inl GzipErrHeader)"

lemma readFull_length: "readFull k r = Inr (h, r') \<Longrightarrow> length (fst r') = length (fst r) - k"
  by (auto simp: readFull_def split: prod.splits if_splits)

lemma read_extra_length: "read_extra flag (h, r) = Inr (h', r') \<Longrightarrow> length (fst r') \<le> length (fst r)"
  by (fastforce simp: read_extra_def split: if_splits sum.splits dest: readFull_length)

lemma readString_length: "readString flag (h, r) = Inr (h', r') \<Longrightarrow> length (fst r') \<le> length (fst r)"
  by (cases r) (auto simp: readString_def split: if_splits)

lemma gzip_readHeader_length:
  assumes "gzip_readHeader r = Inr r'"
  shows "length (fst r') \<le> length (fst r)"
proof -
  from assms obtain h r1 where 1: "readFull 10 r = Inr (h, r1)"
    unfolding gzip_readHeader_def by (cases "readFull 10 r") auto
  let ?f = "\<lambda>k. bits_of_char (h ! 3) ! k"
  from assms 1 have m: "take 3 h = [CHR 0x1F, CHR 0x8B, CHR 0x08]"
    unfolding gzip_readHeader_def by (simp split: if_splits)
  from assms 1 m obtain h2 r2 where 2: "read_extra (?f 2) (h, r1) = Inr (h2, r2)"
    unfolding gzip_readHeader_def by (cases "read_extra (?f 2) (h, r1)") auto
  from assms 1 m 2 obtain h3 r3 where 3: "readString (?f 3) (h2, r2) = Inr (h3, r3)"
    unfolding gzip_readHeader_def by (cases "readString (?f 3) (h2, r2)") auto
  from assms 1 m 2 3 obtain h4 r4 where 4: "readString (?f 4) (h3, r3) = Inr (h4, r4)"
    unfolding gzip_readHeader_def by (cases "readString (?f 4) (h3, r3)") auto
  have "length (fst r') \<le> length (fst r4)"
  proof (cases "?f 1")
    case False
    with assms 1 m 2 3 4 show ?thesis unfolding gzip_readHeader_def by simp
  next
    case True
    with assms 1 m 2 3 4 obtain d where "readFull 2 r4 = Inr (d, r')"
      unfolding gzip_readHeader_def by (cases "readFull 2 r4") (auto split: if_splits)
    then show ?thesis using readFull_length by fastforce
  qed
  moreover from 4 have "length (fst r4) \<le> length (fst r3)" by (rule readString_length)
  moreover from 3 have "length (fst r3) \<le> length (fst r2)" by (rule readString_length)
  moreover from 2 have "length (fst r2) \<le> length (fst r1)" by (rule read_extra_length)
  moreover from 1 have "length (fst r1) \<le> length (fst r)" using readFull_length by fastforce
  ultimately show ?thesis by linarith
qed

lemma length_bits_of_bytes: "length (bits_of_bytes bs) = 8 * length bs"
  by (induction bs rule: bits_of_bytes.induct) auto

lemma length_bytes_of_bits: "8 * length (bytes_of_bits xs) \<le> length xs"
  by (induction xs rule: bytes_of_bits.induct) auto

text \<open>\<^verbatim>\<open>Reader.Read\<close> to the end: the members of the stream one after the other.  After the
  compressed data of a member come its CRC-32 and its length modulo \<open>2^32\<close>, four bytes each;
  then the next header is read, and a clean end of input there ends the stream.  Whatever was
  decompressed before an error is part of the result.\<close>

function gzip_members :: "reader \<Rightarrow> reader" where
  "gzip_members (bs, e0) =
     (case inflate (noEOF e0) (bits_of_bytes bs, [], 0) of
        (Some e, st) \<Rightarrow> (rev (fst (snd st)), e)
      | (None, st) \<Rightarrow>
          (case readFull 8 (bytes_of_bits (byte_align (fst st)), e0) of
             Inl e \<Rightarrow> (rev (fst (snd st)), noEOF e)
           | Inr (tr, r1) \<Rightarrow>
               if bits_of_bytes (take 4 tr) = crc32_ChecksumIEEE (rev (fst (snd st))) \<and>
                  bits_of_bytes (drop 4 tr) = bits_of_int 32 (snd (snd st))
               then
                 (case gzip_readHeader r1 of
                    Inl e \<Rightarrow> (rev (fst (snd st)), e)
                  | Inr r2 \<Rightarrow>
                      (case gzip_members r2 of (out2, e2) \<Rightarrow> (rev (fst (snd st)) @ out2, e2)))
               else (rev (fst (snd st)), GzipErrChecksum)))"
  by pat_completeness auto
termination
proof (relation "measure (\<lambda>(bs, e0). length bs)")
  fix bs :: bytes and e0 :: error and x :: "error option" and st :: flate_state
    and x2 :: "bytes \<times> reader" and tr :: bytes and r1 r2 :: reader
  assume inf: "(x, st) = inflate (noEOF e0) (bits_of_bytes bs, [], 0)"
    and rf: "readFull 8 (bytes_of_bits (byte_align (fst st)), e0) = Inr x2" "(tr, r1) = x2"
    and hd: "gzip_readHeader r1 = Inr r2"
  obtain bs' out' n' where st: "st = (bs', out', n')" by (cases st)
  from inf st have "inflate (noEOF e0) (bits_of_bytes bs, [], 0) = (x, bs', out', n')"
    by simp
  from inflate_length [OF this] have "length bs' \<le> 8 * length bs"
    by (simp add: length_bits_of_bytes)
  moreover have "8 * length (bytes_of_bits (byte_align bs')) \<le> length bs'"
    using length_bytes_of_bits [of "byte_align bs'"] by (simp add: byte_align_def)
  moreover from rf st have "readFull 8 (bytes_of_bits (byte_align bs'), e0) = Inr (tr, r1)"
    by simp
  then have "8 \<le> length (bytes_of_bits (byte_align bs'))"
    "length (fst r1) = length (bytes_of_bits (byte_align bs')) - 8"
    by (auto simp only: readFull_def prod.case fst_conv length_drop split: if_splits)
  moreover from hd have "length (fst r2) \<le> length (fst r1)" by (rule gzip_readHeader_length)
  ultimately have "length (fst r2) < length bs" by linarith
  then show "(r2, bs, e0) \<in> measure (\<lambda>(bs, e0). length bs)"
    by (cases r2) simp
qed (rule wf_measure)

declare gzip_members.simps [simp del]

text \<open>\<^verbatim>\<open>gzip.NewReader\<close> reads the first header and fails when that fails.\<close>

definition go_gzip_NewReader :: "reader \<Rightarrow> error + reader" where
  "go_gzip_NewReader r = (case gzip_readHeader r of Inl e \<Rightarrow> Inl e | Inr r1 \<Rightarrow> Inr (gzip_members r1))"

subsection \<open>The instance\<close>

text \<open>The operating system is a table of files: \<^verbatim>\<open>os.Open\<close> of a listed path gives a handle,
  here the file's content, and reading the handle to the end gives that content.\<close>

definition go_os_Open :: "(string \<rightharpoonup> bytes) \<Rightarrow> string \<Rightarrow> error + bytes" where
  "go_os_Open disk p = (case disk p of None \<Rightarrow> Inl (PathError p) | Some b \<Rightarrow> Inr b)"

definition go_stdlib :: "(string \<rightharpoonup> bytes) \<Rightarrow> bytes stdlib" where
  "go_stdlib disk =
     \<lparr>base64_NewDecoder = go_base64_NewDecoder,
      gzip_NewReader = go_gzip_NewReader,
      os_Open = go_os_Open disk,
      os_ReadAll = (\<lambda>h. (h, None))\<rparr>"

subsection \<open>The shipped registry\<close>

text \<open>The payload of \<^verbatim>\<open>/index.html\<close> (lines 215--241): a raw string literal that starts with a
  newline and has a newline after each of its 25 lines of base64 text.\<close>

definition index_html_compressed :: string where
  "index_html_compressed = CHR 0x0A #
     ''H4sIAAAAAAAC/9RXX3PbNhJ/16fYQ3NH6mSSkmXHjiyq47NSx+mlzsl2OrlOHkBwRUImAQYA9acef/cb'' @ [CHR 0x0A] @
     ''kJRM2clNH1s92MDuYnd/+1capybPJh2AcY6GAkup0mhCcnVz7Z2eHr/xBuSJK2iOIVlyXBVSGQJMCoPC'' @ [CHR 0x0A] @
     ''hGTFY5OGMS45Q6+6HAAX3HCaeZrRDMOB3z+AnK55XuZtUqlRVXcaZRj2a2Mp0tgeAMaGmwwn76SZXU/B'' @ [CHR 0x0A] @
     ''gxmPUcO1gCnmVMTjoObXspopXhjQioUkNabQoyBgMkZ/8bVEtfGZzIP66A39gT/wcy78hSaTcVA/bfRk'' @ [CHR 0x0A] @
     ''XNyDwiwk2mwy1CmiIZAqnD/pzemaxcKPpDTaKFrYi9W/IwRDf+ifBEzrJ1plkGlNgAuDieJmExKd0uHp'' @ [CHR 0x0A] @
     ''kfevT585v7n6CX8exJf5+9n5/YaV787fzZLh4XV+x1arEymGs89xcvSJ9j7mN7f69+Dn16fLKH67SI9K'' @ [CHR 0x0A] @
     ''AkxJraXiCRchoUKKTS5LTf5PcP4oiMVzDItvQrhlx1f/4VH/8OTrcrO4+TB/t7j+QP99Py9//bT+7/ru'' @ [CHR 0x0A] @
     ''o7h4f36SHeYXv/5yVVy+yS8vpqery1+u2Mfpye2afh/CU4IaMDYvk45fljyGB8ipSrjwjCxGMDgu1mfw'' @ [CHR 0x0A] @
     ''2PFTaZSMvag0Rgp4gILGMRfJCA77VoKVSks1gkJaIOpsX0n/W0pGqVyigoeXb+c8M6hGECmepEag1u7p'' @ [CHR 0x0A] @
     ''8d+7VsUPjYpMJt/x9AfDi++wKrBBg9Z2RrBtjXEk402T2pgvgWVU65DYjqRcoGrSvs+twkUzVKb+63Ex'' @ [CHR 0x0A] @
     ''lza6MV/u5BlaTNur7caB7T+Y+df+1B8H6aDNO5qMMZ+8aEvMJ+MgPWpJttxQckWeOC8hZF4ee0OwB517'' @ [CHR 0x0A] @
     ''r5/J1gVQUPGCaj+NksgIiIyoAFaHKJPsHvbSSb6pIKaGeqzURuaoQjI4HJLJjLIUM0fDT5lUNIMpap4I'' @ [CHR 0x0A] @
     ''PQ6sG8+QtGP5Zwc3fHNIJrdK5nCRSiYzajiqvzyqk+GATN7TggrUaHOlUZm/frKOX5+QyXlOf+cigQs5'' @ [CHR 0x0A] @
     ''nyPCTFJtUP0RcM+vFiePQ2J4QSYXGWf3IAVszVWrHmgklwhGglQxKqDAqPK/p+hpzpEt9gxp/Hy8BO35'' @ [CHR 0x0A] @
     ''smONg3qedXabatLpzEvBDJcC5lLl1ExLRe3VjZtDFx46AEuqIIYQtlQIwB30qw/8Ewb1v9f97lkjWwpu'' @ [CHR 0x0A] @
     ''NITg5Fw4lqjQlErAB2pSX8lSxG7chV4td9Z57HTsK5ZxFObu7moKYVu0PlIRy9ztNvasLfsmo9rM8GuJ'' @ [CHR 0x0A] @
     ''2lTP+medziuXVFuLdH37zcsln2WpYIVRY8HRwOOR3XBKimRCoNc23QNi10HN6jbq9kup6zObTHcbPBeX'' @ [CHR 0x0A] @
     ''pg7Unju93jYequXhvinPWt97tX0zV6jTC6oghFfuK5e0lhzp+oXCAkXsOu1mqp54jCpSbYwp1wU1LLXF'' @ [CHR 0x0A] @
     ''XNeV7/+m8OsInN7Oo57zpVkltkycrs9SnsUKhdv9rf9ll9Fd0YaAS+MbqhI0vm0fjcbfcq203Z6obPYf'' @ [CHR 0x0A] @
     ''mnp0FhQTVF5Ek4Qm6IzA0ag1lyJ0nsfeOdgGq+Lt3OwAPFrtTAotM/QzmbiNpZ2PEc6lQghhSg36Qq5c'' @ [CHR 0x0A] @
     ''mz6AIIA7jfYbhUJh4G52BVRDRDUW1KS28oEu6HprTDfqLPOjwjlfQwgrLmK58jPJqgbwLdP2r7W9J9i6'' @ [CHR 0x0A] @
     ''/C0EEhD4sU0bgeNUTr3yrU23xeqBE8RNyn7czaQqQtvg98D5h5BCY0Xe64uDJtxNUEbbw0FFzdGkMh6B'' @ [CHR 0x0A] @
     ''c/n21qlJumQMtR7BroptNg/A4NrcGGpK3d1l0IaDzk2V/nZwmyncyonVsWNUY2M7MsIXI4Ya6r+9Pd+J'' @ [CHR 0x0A] @
     ''byu+7lqn+UEyjiYWbCU9VXxZh2EcRBOgSvGlrW4uoJLZ2uqBA02lt4uorq+MGhRsU/PcCpZXl44dSU6u'' @ [CHR 0x0A] @
     ''vziNS482Uo/ds85jXUitr8jjoP5R978AAAD//wouYFDcDQAA'' @ [CHR 0x0A]"

text \<open>\<^verbatim>\<open>_escData\<close> (lines 208--249) and \<^verbatim>\<open>_escDirs\<close> (lines 251--256).  Fields that a literal
  does not mention have Go's zero value.  The listing of \<^verbatim>\<open>web_assets\<close> holds the pointer
  stored under \<^verbatim>\<open>/index.html\<close>.\<close>

definition index_html :: escFile where
  "index_html =
     \<lparr>compressed = index_html_compressed, fsize = 3548, modtime = 1576748870,
      local = ''web_assets/index.html'', isDir = False, once = False, data = [],
      name = ''index.html''\<rparr>"

definition root_dir :: escFile where
  "root_dir =
     \<lparr>compressed = [], fsize = 0, modtime = 0, local = ''web_assets'', isDir = True,
      once = False, data = [], name = ''/''\<rparr>"

definition shipped_escData :: "string \<rightharpoonup> escFile" where
  "shipped_escData = [''/index.html'' \<mapsto> index_html, ''/'' \<mapsto> root_dir]"

definition shipped_escDirs :: "string \<rightharpoonup> ptr list" where
  "shipped_escDirs = [''web_assets'' \<mapsto> [''/index.html'']]"

definition shipped :: state where
  "shipped = \<lparr>escData = shipped_escData, escDirs = shipped_escDirs, decodes = []\<rparr>"

subsection \<open>A second registry\<close>

text \<open>The generator writes the same code around any set of assets.  This registry has what the
  shipped one lacks: an empty file, a directory without children, and a payload cut off after
  its compressed data, where the gzip trailer should follow.  The payload of \<^verbatim>\<open>/hello.txt\<close> is
  the gzip encoding of the five bytes \<^verbatim>\<open>hello\<close> as one stored block.\<close>

definition hello_txt :: escFile where
  "hello_txt =
     \<lparr>compressed = ''H4sIAAAAAAAA/wEFAPr/aGVsbG+GphA2BQAAAA=='', fsize = 5, modtime = 1576748870,
      local = ''assets/hello.txt'', isDir = False, once = False, data = [],
      name = ''hello.txt''\<rparr>"

definition empty_txt :: escFile where
  "empty_txt =
     \<lparr>compressed = [], fsize = 0, modtime = 1576748870,
      local = ''assets/empty.txt'', isDir = False, once = False, data = [],
      name = ''empty.txt''\<rparr>"

definition broken_txt :: escFile where
  "broken_txt =
     \<lparr>compressed = ''H4sIAAAAAAAA/wEFAPr/aGVsbG8='', fsize = 5, modtime = 1576748870,
      local = ''assets/broken.txt'', isDir = False, once = False, data = [],
      name = ''broken.txt''\<rparr>"

definition sub_dir :: escFile where
  "sub_dir =
     \<lparr>compressed = [], fsize = 0, modtime = 0,
      local = ''assets/sub'', isDir = True, once = False, data = [], name = ''sub''\<rparr>"

definition assets_dir :: escFile where
  "assets_dir =
     \<lparr>compressed = [], fsize = 0, modtime = 0,
      local = ''assets'', isDir = True, once = False, data = [], name = ''/''\<rparr>"

definition demo_escData :: "string \<rightharpoonup> escFile" where
  "demo_escData =
     [''/hello.txt'' \<mapsto> hello_txt, ''/empty.txt'' \<mapsto> empty_txt,
      ''/broken.txt'' \<mapsto> broken_txt, ''/sub'' \<mapsto> sub_dir, ''/'' \<mapsto> assets_dir]"

definition demo_escDirs :: "string \<rightharpoonup> ptr list" where
  "demo_escDirs =
     [''assets'' \<mapsto> [''/hello.txt'', ''/empty.txt'', ''/broken.txt'', ''/sub''],
      ''assets/sub'' \<mapsto> []]"

definition demo :: state where
  "demo = \<lparr>escData = demo_escData, escDirs = demo_escDirs, decodes = []\<rparr>"

text \<open>The library instance on a machine without files.\<close>

definition lib0 :: "bytes stdlib" where
  "lib0 = go_stdlib Map.empty"

section \<open>Properties\<close>

subsection \<open>What \<open>prepare\<close> does, case by case\<close>

text \<open>The decode pipeline in the words of the specification: base64-decode the stored text,
  feed the decoded stream through the gzip decompressor, read it to completion.  The result is
  what \<^verbatim>\<open>ReadAll\<close> returns, and a failure of the gzip constructor is a failure with no data.\<close>

definition decode_pipeline :: "'h stdlib \<Rightarrow> string \<Rightarrow> bytes \<times> error option" where
  "decode_pipeline L text =
     (case gzip_NewReader L (base64_NewDecoder L text) of
        Inl e \<Rightarrow> ([], Some e)
      | Inr gr \<Rightarrow> ioutil_ReadAll gr)"

text \<open>The descriptor after its \<^verbatim>\<open>sync.Once\<close> has fired for the request \<open>nm\<close>: the name is set,
  and \<open>data\<close> is assigned exactly when \<^verbatim>\<open>ReadAll\<close> was reached.\<close>

definition fired :: "'h stdlib \<Rightarrow> string \<Rightarrow> escFile \<Rightarrow> escFile" where
  "fired L nm f =
     (if fsize f = 0 then f\<lparr>name := path_Base nm, once := True\<rparr>
      else
        (case gzip_NewReader L (base64_NewDecoder L (compressed f)) of
           Inl e \<Rightarrow> f\<lparr>name := path_Base nm, once := True\<rparr>
         | Inr gr \<Rightarrow> f\<lparr>name := path_Base nm, data := fst (ioutil_ReadAll gr), once := True\<rparr>))"

lemma prepare_unregistered:
  "escData st (path_Clean nm) = None \<Longrightarrow> prepare L nm st = (Inl ErrNotExist, st)"
  by (simp add: prepare_def Let_def)

lemma prepare_fired:
  "escData st (path_Clean nm) = Some f \<Longrightarrow> once f \<Longrightarrow> prepare L nm st = (Inr (path_Clean nm), st)"
  by (simp add: prepare_def Let_def)

lemma prepare_first_size0:
  assumes "escData st (path_Clean nm) = Some f" "\<not> once f" "fsize f = 0"
  shows "prepare L nm st =
           (Inr (path_Clean nm),
            st\<lparr>escData := (escData st)(path_Clean nm \<mapsto> f\<lparr>name := path_Base nm, once := True\<rparr>)\<rparr>)"
  using assms by (simp add: prepare_def once_body_def Let_def)

lemma prepare_first_decode:
  assumes "escData st (path_Clean nm) = Some f" "\<not> once f" "fsize f \<noteq> 0"
  shows "prepare L nm st =
           (case snd (decode_pipeline L (compressed f)) of
              None \<Rightarrow> Inr (path_Clean nm)
            | Some e \<Rightarrow> Inl e,
            st\<lparr>escData := (escData st)(path_Clean nm \<mapsto> fired L nm f),
               decodes := decodes st @ [path_Clean nm]\<rparr>)"
  using assms
  by (cases "gzip_NewReader L (base64_NewDecoder L (compressed f))")
     (auto simp: prepare_def once_body_def decode_pipeline_def fired_def Let_def
           split: prod.splits option.splits)

text \<open>The fields that the registry declares are never changed, and neither is the listing
  table.\<close>

lemma prepare_escDirs: "escDirs (snd (prepare L nm st)) = escDirs st"
  by (auto simp: prepare_def once_body_def Let_def split: option.splits sum.splits prod.splits)

lemma prepare_keeps_declared:
  assumes "escData st k = Some f"
  shows "\<exists>f'. escData (snd (prepare L nm st)) k = Some f' \<and> isDir f' = isDir f \<and>
           local f' = local f \<and> fsize f' = fsize f \<and> modtime f' = modtime f \<and>
           compressed f' = compressed f"
  using assms
  by (auto simp: prepare_def once_body_def Let_def split: option.splits sum.splits prod.splits)

text \<open>A descriptor of size 0 whose data is empty keeps empty data: \<open>data\<close> is assigned only
  behind the size test.\<close>

lemma prepare_keeps_empty_data:
  assumes "escData st k = Some f" "fsize f = 0" "data f = []"
  shows "\<exists>f'. escData (snd (prepare L nm st)) k = Some f' \<and> fsize f' = 0 \<and> data f' = []"
  using assms
  by (auto simp: prepare_def once_body_def Let_def split: option.splits sum.splits prod.splits)

text \<open>The embedded \<open>FSByte\<close> and \<open>Open\<close> in terms of \<open>prepare\<close>.\<close>

lemma FSByte_embedded:
  "FSByte L False nm st =
     (case prepare L nm st of
        (Inl e, st') \<Rightarrow> (([], Some e), st')
      | (Inr k, st') \<Rightarrow>
          (case escData st' k of
             None \<Rightarrow> (([], Some NilDereference), st')
           | Some f \<Rightarrow> ((data f, None), st')))"
  by (simp add: FSByte_def deref_def split: prod.splits sum.splits option.splits)

lemma Open_embedded:
  "Open L (FS False) nm st =
     (case prepare L nm st of
        (Inl e, st') \<Rightarrow> (Inl e, st')
      | (Inr k, st') \<Rightarrow>
          (case escData st' k of
             None \<Rightarrow> (Inl NilDereference, st')
           | Some f \<Rightarrow>
               (Inr (StaticFile \<lparr>Reader = bytes_NewReader (data f), escFile_ptr = k\<rparr>), st')))"
  by (simp add: FS_def escStaticFS_Open_def File_def split: prod.splits sum.splits option.splits)

subsection \<open>Evaluations\<close>



lemma Clean_missing: "path_Clean ''/missing.css'' = ''/missing.css''"
  by (simp add: path_Clean_def Let_def backtrack.simps)

lemma Clean_hello: "path_Clean ''/hello.txt'' = ''/hello.txt''"
  by (simp add: path_Clean_def Let_def backtrack.simps)

lemma Clean_empty: "path_Clean ''/empty.txt'' = ''/empty.txt''"
  by (simp add: path_Clean_def Let_def backtrack.simps)

lemma Clean_broken: "path_Clean ''/broken.txt'' = ''/broken.txt''"
  by (simp add: path_Clean_def Let_def backtrack.simps)



lemma Base_empty: "path_Base ''/empty.txt'' = ''empty.txt''"
  by (simp add: path_Base_def Let_def)

lemma demo_hello: "escData demo ''/hello.txt'' = Some hello_txt"
  by (simp add: demo_def demo_escData_def)

lemma demo_empty: "escData demo ''/empty.txt'' = Some empty_txt"
  by (simp add: demo_def demo_escData_def)

lemma demo_broken: "escData demo ''/broken.txt'' = Some broken_txt"
  by (simp add: demo_def demo_escData_def)

lemma demo_sub: "escData demo ''/sub'' = Some sub_dir"
  by (simp add: demo_def demo_escData_def)

lemma demo_root: "escData demo ''/'' = Some assets_dir"
  by (simp add: demo_def demo_escData_def)


lemma shipped_root: "escData shipped ''/'' = Some root_dir"
  by (simp add: shipped_def shipped_escData_def)

lemma shipped_missing: "escData shipped ''/missing.css'' = None"
  by (simp add: shipped_def shipped_escData_def)

lemma decode_hello: "decode_pipeline lib0 (compressed hello_txt) = (''hello'', None)"
  by code_simp

lemma decode_broken:
  "decode_pipeline lib0 (compressed broken_txt) = (''hello'', Some ErrUnexpectedEOF)"
  by code_simp

subsection \<open>Materialization on first use\<close>

text \<open>
  Claim C1.  For a registered descriptor that is not a directory, has a size greater than 0 and
  whose \<^verbatim>\<open>sync.Once\<close> has not fired, an embedded open or \<open>FSByte\<close> runs the decode pipeline on
  the stored text once: on success \<open>FSByte\<close> returns the decoded bytes and \<open>Open\<close> a handle
  reading them, and a failure anywhere in the pipeline is returned, as the error, to this
  caller.
\<close>

theorem first_use_runs_decode_pipeline:
  assumes "escData st (path_Clean p) = Some f" and "\<not> isDir f" and "0 < fsize f"
    and "\<not> once f"
  shows "fst (FSByte L False p st) =
           (case decode_pipeline L (compressed f) of
              (d, None) \<Rightarrow> (d, None)
            | (d, Some e) \<Rightarrow> ([], Some e)) \<and>
         fst (Open L (FS False) p st) =
           (case decode_pipeline L (compressed f) of
              (d, None) \<Rightarrow>
                Inr (StaticFile \<lparr>Reader = bytes_NewReader d, escFile_ptr = path_Clean p\<rparr>)
            | (d, Some e) \<Rightarrow> Inl e) \<and>
         decodes (snd (FSByte L False p st)) = decodes st @ [path_Clean p] \<and>
         snd (Open L (FS False) p st) = snd (FSByte L False p st)"
proof -
  from assms have ne: "fsize f \<noteq> 0" by simp
  note pr = prepare_first_decode [OF assms(1) assms(4) ne, of L]
  show ?thesis
  proof (cases "gzip_NewReader L (base64_NewDecoder L (compressed f))")
    case (Inl e)
    then show ?thesis
      by (simp add: FSByte_embedded Open_embedded pr decode_pipeline_def)
  next
    case (Inr gr)
    obtain d err where r: "ioutil_ReadAll gr = (d, err)" by (cases "ioutil_ReadAll gr")
    with Inr show ?thesis
      by (cases err)
         (simp_all add: FSByte_embedded Open_embedded pr decode_pipeline_def fired_def ne)
  qed
qed

theorem first_use_runs_decode_pipeline_witness:
  "escData demo (path_Clean ''/hello.txt'') = Some hello_txt \<and> \<not> isDir hello_txt \<and>
   0 < fsize hello_txt \<and> \<not> once hello_txt \<and>
   fst (FSByte lib0 False ''/hello.txt'' demo) = (''hello'', None) \<and>
   fst (Open lib0 (FS False) ''/hello.txt'' demo) =
     Inr (StaticFile \<lparr>Reader = bytes_NewReader ''hello'', escFile_ptr = ''/hello.txt''\<rparr>) \<and>
   decodes (snd (FSByte lib0 False ''/hello.txt'' demo)) = decodes demo @ [''/hello.txt'']"
proof -
  have a: "escData demo (path_Clean ''/hello.txt'') = Some hello_txt"
    by (simp add: Clean_hello demo_hello)
  have b: "\<not> isDir hello_txt" "0 < fsize hello_txt" "\<not> once hello_txt"
    by (simp_all add: hello_txt_def)
  from first_use_runs_decode_pipeline [OF a b, of lib0] a b show ?thesis
    by (simp add: decode_hello Clean_hello)
qed

subsection \<open>After a failed materialization\<close>

text \<open>
  Claim C3, as amended.  When the first materialization of a descriptor fails, the error goes to
  the caller that triggered it.  From then on every \<open>prepare\<close>, \<open>Open\<close> and \<open>FSByte\<close> on that
  descriptor succeeds, leaves the state as it is (so nothing is decoded again) and delivers the
  descriptor's data: the bytes that \<^verbatim>\<open>ReadAll\<close> had read before the failure, or the data as
  declared (empty) when the gzip constructor failed.
\<close>

theorem after_failed_decode:
  assumes "escData st (path_Clean p) = Some f" and "\<not> once f"
    and "prepare L p st = (Inl e, st1)" and "path_Clean q = path_Clean p"
  shows "prepare L q st1 = (Inr (path_Clean p), st1) \<and>
         FSByte L False q st1 =
           ((case gzip_NewReader L (base64_NewDecoder L (compressed f)) of
               Inl e' \<Rightarrow> data f
             | Inr gr \<Rightarrow> fst (ioutil_ReadAll gr), None), st1) \<and>
         Open L (FS False) q st1 =
           (Inr (StaticFile
              \<lparr>Reader = bytes_NewReader
                  (case gzip_NewReader L (base64_NewDecoder L (compressed f)) of
                     Inl e' \<Rightarrow> data f
                   | Inr gr \<Rightarrow> fst (ioutil_ReadAll gr)),
               escFile_ptr = path_Clean p\<rparr>), st1) \<and>
         decodes st1 = decodes st @ [path_Clean p]"
proof -
  have ne: "fsize f \<noteq> 0"
  proof
    assume "fsize f = 0"
    from prepare_first_size0 [OF assms(1) assms(2) this, of L] assms(3) show False by simp
  qed
  from prepare_first_decode [OF assms(1) assms(2) ne, of L] assms(3)
  have st1: "st1 = st\<lparr>escData := (escData st)(path_Clean p \<mapsto> fired L p f),
                       decodes := decodes st @ [path_Clean p]\<rparr>"
    by simp
  have f1: "escData st1 (path_Clean q) = Some (fired L p f)"
    by (simp add: st1 assms(4))
  have o1: "once (fired L p f)"
    by (simp add: fired_def split: sum.splits)
  have d1: "data (fired L p f) =
              (case gzip_NewReader L (base64_NewDecoder L (compressed f)) of
                 Inl e' \<Rightarrow> data f
               | Inr gr \<Rightarrow> fst (ioutil_ReadAll gr))"
    by (simp add: fired_def ne split: sum.splits)
  have p1: "prepare L q st1 = (Inr (path_Clean p), st1)"
    using prepare_fired [OF f1 o1, of L] by (simp add: assms(4))
  have f1': "escData st1 (path_Clean p) = Some (fired L p f)"
    using f1 by (simp add: assms(4))
  have "decodes st1 = decodes st @ [path_Clean p]"
    by (simp add: st1)
  with p1 f1' d1 show ?thesis
    by (simp add: FSByte_embedded Open_embedded)
qed

text \<open>The state in which the first request for \<^verbatim>\<open>/broken.txt\<close> leaves the second registry.\<close>

lemma prepare_broken:
  "prepare lib0 ''/broken.txt'' demo =
     (Inl ErrUnexpectedEOF,
      demo\<lparr>escData := (escData demo)(''/broken.txt'' \<mapsto> fired lib0 ''/broken.txt'' broken_txt),
           decodes := decodes demo @ [''/broken.txt'']\<rparr>)"
proof -
  have a: "escData demo (path_Clean ''/broken.txt'') = Some broken_txt"
    by (simp add: Clean_broken demo_broken)
  have b: "\<not> once broken_txt" "fsize broken_txt \<noteq> 0"
    by (simp_all add: broken_txt_def)
  from prepare_first_decode [OF a b, of lib0] show ?thesis
    by (simp add: decode_broken Clean_broken)
qed

lemma broken_partial:
  "(case gzip_NewReader lib0 (base64_NewDecoder lib0 (compressed broken_txt)) of
      Inl e' \<Rightarrow> data broken_txt
    | Inr gr \<Rightarrow> fst (ioutil_ReadAll gr)) = ''hello''"
  using decode_broken by (auto simp: decode_pipeline_def split: sum.splits)

lemma fired_broken_data: "data (fired lib0 ''/broken.txt'' broken_txt) = ''hello''"
proof -
  have "fsize broken_txt \<noteq> 0" by (simp add: broken_txt_def)
  with broken_partial show ?thesis
    by (auto simp: fired_def split: sum.splits)
qed

theorem after_failed_decode_witness:
  "escData demo (path_Clean ''/broken.txt'') = Some broken_txt \<and> \<not> once broken_txt \<and>
   fst (prepare lib0 ''/broken.txt'' demo) = Inl ErrUnexpectedEOF \<and>
   FSByte lib0 False ''/broken.txt'' (snd (prepare lib0 ''/broken.txt'' demo)) =
     ((''hello'', None), snd (prepare lib0 ''/broken.txt'' demo)) \<and>
   decodes (snd (prepare lib0 ''/broken.txt'' demo)) = [''/broken.txt'']"
proof -
  have a: "escData demo (path_Clean ''/broken.txt'') = Some broken_txt"
    by (simp add: Clean_broken demo_broken)
  have b: "\<not> once broken_txt"
    by (simp add: broken_txt_def)
  have c: "decodes demo = []"
    by (simp add: demo_def)
  from after_failed_decode [OF a b prepare_broken refl] a b broken_partial c show ?thesis
    by (simp add: prepare_broken)
qed

text \<open>
  Claim C3 as stated says that the later callers get zero-length data.  The descriptor
  \<^verbatim>\<open>/broken.txt\<close> of the second registry refutes that: its payload lacks the gzip trailer, the
  first \<open>FSByte\<close> fails with an unexpected EOF, and the second one succeeds with the five bytes
  that were decompressed before the failure.
\<close>

theorem later_caller_sees_partial_data:
  "fst (FSByte lib0 False ''/broken.txt'' demo) = ([], Some ErrUnexpectedEOF) \<and>
   fst (FSByte lib0 False ''/broken.txt'' (snd (FSByte lib0 False ''/broken.txt'' demo))) =
     (''hello'', None) \<and>
   length (fst (fst (FSByte lib0 False ''/broken.txt''
                       (snd (FSByte lib0 False ''/broken.txt'' demo))))) = 5"
proof -
  let ?st1 = "demo\<lparr>escData := (escData demo)(''/broken.txt'' \<mapsto> fired lib0 ''/broken.txt'' broken_txt),
                   decodes := decodes demo @ [''/broken.txt'']\<rparr>"
  have first: "FSByte lib0 False ''/broken.txt'' demo = (([], Some ErrUnexpectedEOF), ?st1)"
    by (simp add: FSByte_embedded prepare_broken)
  have d: "escData ?st1 (path_Clean ''/broken.txt'') = Some (fired lib0 ''/broken.txt'' broken_txt)"
    by (simp add: Clean_broken)
  have e: "once (fired lib0 ''/broken.txt'' broken_txt)"
    by (simp add: fired_def split: sum.splits)
  have second: "FSByte lib0 False ''/broken.txt'' ?st1 = ((''hello'', None), ?st1)"
    using prepare_fired [OF d e, of lib0] fired_broken_data
    by (simp add: FSByte_embedded Clean_broken)
  show ?thesis
    by (simp only: first second fst_conv snd_conv) simp
qed

subsection \<open>Paths that are not registered\<close>

text \<open>
  Claim C4.  When the cleaned form of a path is not a key of the registry, \<open>Open\<close> fails with
  \<^verbatim>\<open>os.ErrNotExist\<close> and changes nothing, in embedded mode and in local mode.
\<close>

theorem open_unregistered_is_ErrNotExist:
  assumes "escData st (path_Clean p) = None"
  shows "Open L (FS useLocal) p st = (Inl ErrNotExist, st)"
  using assms
  by (cases useLocal) (simp_all add: FS_def escLocalFS_Open_def escStaticFS_Open_def prepare_unregistered)

theorem open_unregistered_is_ErrNotExist_witness:
  "escData shipped (path_Clean ''/missing.css'') = None \<and>
   Open lib0 (FS False) ''/missing.css'' shipped = (Inl ErrNotExist, shipped) \<and>
   Open lib0 (FS True) ''/missing.css'' shipped = (Inl ErrNotExist, shipped)"
proof -
  have a: "escData shipped (path_Clean ''/missing.css'') = None"
    by (simp add: Clean_missing shipped_missing)
  from open_unregistered_is_ErrNotExist [OF a, of lib0 False]
    open_unregistered_is_ErrNotExist [OF a, of lib0 True] a
  show ?thesis by simp
qed

subsection \<open>Directory listings\<close>

text \<open>
  Claim C5.  For a directory whose entry in the listing table is the empty list, \<open>Readdir\<close>
  returns the empty list and no error when \<open>count\<close> is at most 0, and fails with \<^verbatim>\<open>io.EOF\<close> when
  \<open>count\<close> is positive; the same holds through a handle's pointer.
\<close>

theorem Readdir_empty_directory:
  assumes "escData st p = Some f" and "isDir f" and "escDirs st (local f) = Some []"
  shows "Readdir (escDirs st) f count = (if count \<le> 0 then Inr [] else Inl EOF) \<and>
         Readdir_at st p count = (if count \<le> 0 then Inr [] else Inl EOF)"
  using assms by (simp add: Readdir_def Readdir_at_def deref_def)

theorem Readdir_empty_directory_witness:
  "escData demo ''/sub'' = Some sub_dir \<and> isDir sub_dir \<and>
   escDirs demo (local sub_dir) = Some [] \<and>
   Readdir_at demo ''/sub'' 0 = Inr [] \<and> Readdir_at demo ''/sub'' (- 1) = Inr [] \<and>
   Readdir_at demo ''/sub'' 1 = Inl EOF \<and> Readdir_at demo ''/sub'' 100 = Inl EOF"
proof -
  have a: "isDir sub_dir" "escDirs demo (local sub_dir) = Some []"
    by (simp_all add: sub_dir_def demo_def demo_escDirs_def)
  from Readdir_empty_directory [OF demo_sub a, of 0]
    Readdir_empty_directory [OF demo_sub a, of "- 1"]
    Readdir_empty_directory [OF demo_sub a, of 1]
    Readdir_empty_directory [OF demo_sub a, of 100] demo_sub a
  show ?thesis by simp
qed

text \<open>
  Claim C9.  For a directory whose listing has at least one child, \<open>Readdir\<close> never fails with
  \<^verbatim>\<open>io.EOF\<close>: it returns all entries when \<open>count\<close> is at most 0 and otherwise the first
  \<open>min count n\<close> of the \<open>n\<close> entries.  The result depends on the listing table and on \<open>count\<close>
  only: \<open>Readdir\<close> has no cursor to advance, and a call of \<open>prepare\<close> for any path in between
  (another open) does not change it.
\<close>

theorem Readdir_has_no_cursor:
  assumes "escData st p = Some f" and "isDir f" and "escDirs st (local f) = Some fis"
    and "fis \<noteq> []"
  shows "Readdir_at st p count =
           Inr (if count \<le> 0 then fis else take (min (nat count) (length fis)) fis) \<and>
         Readdir_at st p count \<noteq> Inl EOF \<and>
         Readdir_at (snd (prepare L q st)) p count = Readdir_at st p count"
proof -
  have r: "Readdir dirs g count =
             Inr (if count \<le> 0 then fis else take (min (nat count) (length fis)) fis)"
    if "isDir g" "dirs (local g) = Some fis" for dirs g
    using that assms(4) by (auto simp: Readdir_def Let_def min_def)
  from prepare_keeps_declared [OF assms(1), of L q] obtain f'
    where f': "escData (snd (prepare L q st)) p = Some f'" "isDir f' = isDir f"
      "local f' = local f"
    by blast
  have "Readdir_at st p count =
          Inr (if count \<le> 0 then fis else take (min (nat count) (length fis)) fis)"
    using r [of f "escDirs st"] assms by (simp add: Readdir_at_def deref_def)
  moreover have "Readdir_at (snd (prepare L q st)) p count =
          Inr (if count \<le> 0 then fis else take (min (nat count) (length fis)) fis)"
    using r [of f' "escDirs (snd (prepare L q st))"] assms f'
    by (simp add: Readdir_at_def deref_def prepare_escDirs)
  ultimately show ?thesis by simp
qed

theorem Readdir_has_no_cursor_witness:
  "escData demo ''/'' = Some assets_dir \<and> isDir assets_dir \<and>
   escDirs demo (local assets_dir) =
     Some [''/hello.txt'', ''/empty.txt'', ''/broken.txt'', ''/sub''] \<and>
   Readdir_at demo ''/'' 0 = Inr [''/hello.txt'', ''/empty.txt'', ''/broken.txt'', ''/sub''] \<and>
   Readdir_at demo ''/'' 2 = Inr [''/hello.txt'', ''/empty.txt''] \<and>
   Readdir_at demo ''/'' 9 = Inr [''/hello.txt'', ''/empty.txt'', ''/broken.txt'', ''/sub''] \<and>
   Readdir_at (snd (prepare lib0 ''/hello.txt'' demo)) ''/'' 2 =
     Inr [''/hello.txt'', ''/empty.txt'']"
proof -
  have a: "isDir assets_dir"
    "escDirs demo (local assets_dir) = Some [''/hello.txt'', ''/empty.txt'', ''/broken.txt'', ''/sub'']"
    "[''/hello.txt'', ''/empty.txt'', ''/broken.txt'', ''/sub''] \<noteq> []"
    by (simp_all add: assets_dir_def demo_def demo_escDirs_def)
  from Readdir_has_no_cursor [OF demo_root a, of 0 lib0 "''/hello.txt''"]
    Readdir_has_no_cursor [OF demo_root a, of 2 lib0 "''/hello.txt''"]
    Readdir_has_no_cursor [OF demo_root a, of 9 lib0 "''/hello.txt''"] demo_root a
  show ?thesis by simp
qed

subsection \<open>Files of size 0\<close>

text \<open>
  Claim C6.  For a registered descriptor that is not a directory and has size 0 (its data is
  empty, as declared), an embedded \<open>Open\<close> or \<open>FSByte\<close> succeeds with empty content, and the
  decode pipeline is not run: the probe \<open>decodes\<close> is unchanged and the result is the same
  whatever the library is.
\<close>

theorem size0_reads_empty_without_decoding:
  assumes "escData st (path_Clean p) = Some f" and "\<not> isDir f" and "fsize f = 0"
    and "data f = []"
  shows "fst (FSByte L False p st) = ([], None) \<and>
         fst (Open L (FS False) p st) =
           Inr (StaticFile \<lparr>Reader = bytes_NewReader [], escFile_ptr = path_Clean p\<rparr>) \<and>
         decodes (snd (FSByte L False p st)) = decodes st \<and>
         decodes (snd (Open L (FS False) p st)) = decodes st \<and>
         FSByte L' False p st = FSByte L False p st"
proof (cases "once f")
  case True
  from prepare_fired [OF assms(1) True, of L] prepare_fired [OF assms(1) True, of L'] assms
  show ?thesis
    by (simp add: FSByte_embedded Open_embedded)
next
  case False
  from prepare_first_size0 [OF assms(1) False assms(3), of L]
    prepare_first_size0 [OF assms(1) False assms(3), of L'] assms
  show ?thesis
    by (simp add: FSByte_embedded Open_embedded)
qed

theorem size0_reads_empty_without_decoding_witness:
  "escData demo (path_Clean ''/empty.txt'') = Some empty_txt \<and> \<not> isDir empty_txt \<and>
   fsize empty_txt = 0 \<and> data empty_txt = [] \<and>
   fst (FSByte lib0 False ''/empty.txt'' demo) = ([], None) \<and>
   fst (Open lib0 (FS False) ''/empty.txt'' demo) =
     Inr (StaticFile \<lparr>Reader = bytes_NewReader [], escFile_ptr = ''/empty.txt''\<rparr>) \<and>
   decodes (snd (FSByte lib0 False ''/empty.txt'' demo)) = decodes demo"
proof -
  have a: "escData demo (path_Clean ''/empty.txt'') = Some empty_txt"
    by (simp add: Clean_empty demo_empty)
  have b: "\<not> isDir empty_txt" "fsize empty_txt = 0" "data empty_txt = []"
    by (simp_all add: empty_txt_def)
  from size0_reads_empty_without_decoding [OF a b, of lib0 lib0] a b show ?thesis
    by (simp add: Clean_empty)
qed

subsection \<open>The shipped registry\<close>







subsection \<open>The prefix decorator\<close>

text \<open>
  Claim C7.  For every mode flag \<open>l\<close>, prefix \<open>s\<close> and path \<open>n\<close>, opening \<open>n\<close> through
  \<open>Dir l s\<close> gives the same result (and the same state) as opening the plain concatenation
  \<open>s @ n\<close> through \<open>FS l\<close>; in particular opening \<^verbatim>\<open>/assets.js\<close> through the \<^verbatim>\<open>/static\<close>
  decorator is opening \<^verbatim>\<open>/static/assets.js\<close> on the undecorated back end.
\<close>

theorem Dir_Open_is_FS_Open_concat:
  "Open L (Dir l s) n st = Open L (FS l) (s @ n) st \<and>
   Open L (Dir l ''/static'') ''/assets.js'' st = Open L (FS l) ''/static/assets.js'' st"
  by (simp add: Dir_def FS_def)

subsection \<open>Stat and Mode\<close>

text \<open>
  Claim C10.  For every handle, of a file or of a directory, \<open>Stat\<close> succeeds and returns the
  receiver itself, and \<open>Mode\<close> is 0 whatever the descriptor, so the reported mode never has the
  directory bit \<open>ModeDir\<close> set; whether the descriptor is a directory is what \<open>IsDir\<close> returns,
  the \<open>isDir\<close> field.
\<close>

theorem Stat_succeeds_Mode_zero:
  "Stat p = Inr p \<and> Mode f = 0 \<and> Mode f AND ModeDir = 0 \<and> Mode f = Mode g \<and> IsDir f = isDir f"
  by (simp add: Stat_def Mode_def IsDir_def)

end
